theory Spec2Isabelle
  imports Main
begin

section \<open>Go library functions used by the scanner\<close>

text \<open>
  Go strings are byte sequences; they are modelled as \<open>string\<close> (a list of
  \<open>char\<close>, one per byte). The functions of this section are the parts of Go's
  \<^verbatim>\<open>strings\<close> and \<^verbatim>\<open>path/filepath\<close> packages (Unix flavour, separator
  \<^verbatim>\<open>/\<close>, no volume names) that \<^verbatim>\<open>backend.go\<close> and the alias resolver call.
\<close>

subsection \<open>Package strings\<close>

definition strings_HasPrefix :: "string \<Rightarrow> string \<Rightarrow> bool" where
  "strings_HasPrefix s p = (take (length p) s = p)"

definition strings_HasSuffix :: "string \<Rightarrow> string \<Rightarrow> bool" where
  "strings_HasSuffix s p = (length p \<le> length s \<and> drop (length s - length p) s = p)"

definition strings_TrimPrefix :: "string \<Rightarrow> string \<Rightarrow> string" where
  "strings_TrimPrefix s p = (if strings_HasPrefix s p then drop (length p) s else s)"

definition strings_TrimSuffix :: "string \<Rightarrow> string \<Rightarrow> string" where
  "strings_TrimSuffix s p = (if strings_HasSuffix s p then take (length s - length p) s else s)"

fun strings_Contains :: "string \<Rightarrow> string \<Rightarrow> bool" where
  "strings_Contains [] sub = (sub = [])"
| "strings_Contains (c # cs) sub =
     (strings_HasPrefix (c # cs) sub \<or> strings_Contains cs sub)"

text \<open>
  \<^verbatim>\<open>strings.ToLower\<close>, on the ASCII letters. The scanner only compares the result
  with \<^verbatim>\<open>.js\<close>, \<^verbatim>\<open>.jsx\<close>, \<^verbatim>\<open>.ts\<close> and \<^verbatim>\<open>.tsx\<close>, and no letter
  outside ASCII lowers to one of j, s, t, x.
\<close>

definition isUpper :: "char \<Rightarrow> bool" where
  "isUpper c = (65 \<le> (of_char c :: nat) \<and> (of_char c :: nat) \<le> 90)"

definition toLowerChar :: "char \<Rightarrow> char" where
  "toLowerChar c =
     (case map_of (zip ''ABCDEFGHIJKLMNOPQRSTUVWXYZ'' ''abcdefghijklmnopqrstuvwxyz'') c of
        Some l \<Rightarrow> l
      | None \<Rightarrow> c)"

definition strings_ToLower :: "string \<Rightarrow> string" where
  "strings_ToLower s = map toLowerChar s"

text \<open>\<^verbatim>\<open>strings.Join(elems, "/")\<close>.\<close>

fun joinSep :: "string list \<Rightarrow> string" where
  "joinSep [] = []"
| "joinSep [x] = x"
| "joinSep (x # y # ys) = x @ ''/'' @ joinSep (y # ys)"

text \<open>\<^verbatim>\<open>strings.Split(s, "/")\<close>: the fields between separators, never an empty list.\<close>

fun splitSep :: "string \<Rightarrow> string list" where
  "splitSep [] = [[]]"
| "splitSep (c # cs) =
     (if c = CHR ''/'' then [] # splitSep cs
      else (case splitSep cs of [] \<Rightarrow> [[c]] | f # fs \<Rightarrow> (c # f) # fs))"

subsection \<open>Package path/filepath\<close>

text \<open>
  \<^verbatim>\<open>filepath.Clean\<close>: drop empty and \<^verbatim>\<open>.\<close> elements, cancel an inner
  \<^verbatim>\<open>..\<close> against the element before it, drop \<^verbatim>\<open>..\<close> at the start of a rooted
  path; the empty result is \<^verbatim>\<open>.\<close>. The elements kept so far are held in reverse.
\<close>

fun cleanElems :: "bool \<Rightarrow> string list \<Rightarrow> string list \<Rightarrow> string list" where
  "cleanElems rooted acc [] = rev acc"
| "cleanElems rooted acc (e # es) =
     (if e = [] \<or> e = ''.'' then cleanElems rooted acc es
      else if e = ''..'' then
        (case acc of
           [] \<Rightarrow> if rooted then cleanElems rooted [] es else cleanElems rooted [''..''] es
         | a # as \<Rightarrow>
             if a = ''..'' then cleanElems rooted (''..'' # a # as) es
             else cleanElems rooted as es)
      else cleanElems rooted (e # acc) es)"

definition filepath_Clean :: "string \<Rightarrow> string" where
  "filepath_Clean p =
     (let rooted = strings_HasPrefix p ''/'';
          body = joinSep (cleanElems rooted [] (splitSep p));
          out = (if rooted then ''/'' @ body else body)
      in if out = [] then ''.'' else out)"

text \<open>A path element that \<^verbatim>\<open>filepath.Clean\<close> keeps as it is.\<close>

definition plainName :: "string \<Rightarrow> bool" where
  "plainName name =
     (CHR ''/'' \<notin> set name \<and> name \<noteq> [] \<and> name \<noteq> ''.'' \<and> name \<noteq> ''..'')"

text \<open>
  \<^verbatim>\<open>filepath.Join\<close>: the elements from the first non-empty one on, joined by the
  separator and cleaned; the empty string when every element is empty.
\<close>

definition filepath_Join :: "string list \<Rightarrow> string" where
  "filepath_Join elems =
     (case dropWhile (\<lambda>e. e = []) elems of
        [] \<Rightarrow> []
      | e # es \<Rightarrow> filepath_Clean (joinSep (e # es)))"

definition filepath_IsAbs :: "string \<Rightarrow> bool" where
  "filepath_IsAbs p = strings_HasPrefix p ''/''"

text \<open>
  \<^verbatim>\<open>filepath.Base\<close>: the last element, trailing separators removed first;
  \<^verbatim>\<open>.\<close> for the empty path, \<^verbatim>\<open>/\<close> for a path of separators only.
\<close>

definition lastElem :: "string \<Rightarrow> string" where
  "lastElem p = rev (takeWhile (\<lambda>c. c \<noteq> CHR ''/'') (rev p))"

definition filepath_Base :: "string \<Rightarrow> string" where
  "filepath_Base p =
     (if p = [] then ''.''
      else let q = rev (dropWhile (\<lambda>c. c = CHR ''/'') (rev p));
               b = lastElem q
           in if b = [] then ''/'' else b)"

text \<open>
  \<^verbatim>\<open>filepath.Dir\<close>: everything up to and including the last separator, cleaned.
\<close>

definition filepath_Dir :: "string \<Rightarrow> string" where
  "filepath_Dir p = filepath_Clean (rev (dropWhile (\<lambda>c. c \<noteq> CHR ''/'') (rev p)))"

text \<open>
  \<^verbatim>\<open>filepath.Ext\<close>: the suffix of the last element that starts at its last dot;
  empty when the last element has no dot.
\<close>

definition filepath_Ext :: "string \<Rightarrow> string" where
  "filepath_Ext p =
     (let b = lastElem p
      in if CHR ''.'' \<in> set b
         then CHR ''.'' # rev (takeWhile (\<lambda>c. c \<noteq> CHR ''.'') (rev b))
         else [])"

subsection \<open>Package regexp\<close>

text \<open>
  The patterns of \<^verbatim>\<open>backend.go\<close> that the classifier uses are sequences of
  literals, alternations of literals and repeated character classes. \<open>rests r s\<close>
  lists every rest of \<open>s\<close> that remains after \<open>r\<close> matches a prefix of it (longest
  repetition first, as the library prefers), and \<open>matchAt\<close> does so for a sequence; a
  pattern matches somewhere in a text when it matches at one of its positions.
\<close>

datatype rx = Alt "string list" | One string | Plus string | Star string

fun starRests :: "string \<Rightarrow> string \<Rightarrow> string list" where
  "starRests cls [] = [[]]"
| "starRests cls (c # cs) =
     (if c \<in> set cls then starRests cls cs @ [c # cs] else [c # cs])"

fun rests :: "rx \<Rightarrow> string \<Rightarrow> string list" where
  "rests (Alt ls) s = map (\<lambda>l. drop (length l) s) (filter (strings_HasPrefix s) ls)"
| "rests (One cls) [] = []"
| "rests (One cls) (c # cs) = (if c \<in> set cls then [cs] else [])"
| "rests (Plus cls) [] = []"
| "rests (Plus cls) (c # cs) = (if c \<in> set cls then starRests cls cs else [])"
| "rests (Star cls) s = starRests cls s"

fun matchAt :: "rx list \<Rightarrow> string \<Rightarrow> string list" where
  "matchAt [] s = [s]"
| "matchAt (r # rs) s = concat (map (matchAt rs) (rests r s))"

text \<open>\<^verbatim>\<open>(*Regexp).MatchString\<close>: is there a match anywhere in the text?\<close>

fun regexp_MatchString :: "rx list \<Rightarrow> string \<Rightarrow> bool" where
  "regexp_MatchString pat [] = (matchAt pat [] \<noteq> [])"
| "regexp_MatchString pat (c # cs) =
     (matchAt pat (c # cs) \<noteq> [] \<or> regexp_MatchString pat cs)"

text \<open>
  The number of matches \<^verbatim>\<open>FindAllString(content, -1)\<close> returns: the leftmost
  match, then the leftmost match in what follows it, and so on. (The patterns of this
  program start with a keyword and never match the empty string; should a match be
  empty, the search moves on by one byte.)
\<close>

function findAllCount :: "rx list \<Rightarrow> string \<Rightarrow> nat" where
  "findAllCount pat [] = 0"
| "findAllCount pat (c # cs) =
     (case matchAt pat (c # cs) of
        [] \<Rightarrow> findAllCount pat cs
      | r # _ \<Rightarrow>
          if length r < length (c # cs) then Suc (findAllCount pat r)
          else Suc (findAllCount pat cs))"
  by pat_completeness auto
termination
  by (relation "measure (\<lambda>(pat, s). length s)") auto

text \<open>The classes \<^verbatim>\<open>\s\<close>, \<^verbatim>\<open>\w\<close> and \<^verbatim>\<open>[A-Z]\<close> of Go's regular expressions.\<close>

definition rx_space :: string where
  "rx_space = [CHR 0x09, CHR 0x0A, CHR 0x0C, CHR 0x0D, CHR 0x20]"

definition rx_upper :: string where
  "rx_upper = ''ABCDEFGHIJKLMNOPQRSTUVWXYZ''"

definition rx_word :: string where
  "rx_word = ''0123456789'' @ rx_upper @ ''abcdefghijklmnopqrstuvwxyz_''"

section \<open>The file classifier (backend.go)\<close>

datatype ComponentNode =
  ComponentNode
    (ID: string) (Name: string) (Path: string) (Type: string) (MultipleComp: bool)
    (Imports: "string list") (ImportedBy: "string list") (Children: "ComponentNode list")

text \<open>\<^verbatim>\<open>isReactFile\<close>: the extension, lowered, is one of the four.\<close>

definition isReactFile :: "string \<Rightarrow> bool" where
  "isReactFile filename =
     (let ext = strings_ToLower (filepath_Ext filename)
      in ext = ''.js'' \<or> ext = ''.jsx'' \<or> ext = ''.ts'' \<or> ext = ''.tsx'')"

text \<open>
  The pattern \<^verbatim>\<open>(function|const|class)\s+\w+\s*[({]\<close> of \<^verbatim>\<open>isComponentFile\<close> and
  the pattern \<^verbatim>\<open>(function|const|class)\s+[A-Z]\w+\s*[({]\<close> of
  \<^verbatim>\<open>hasMultipleComponents\<close>.
\<close>

definition componentDefPattern :: "rx list" where
  "componentDefPattern =
     [Alt [''function'', ''const'', ''class''], Plus rx_space, Plus rx_word,
      Star rx_space, One ''({'']"

definition upperComponentDefPattern :: "rx list" where
  "upperComponentDefPattern =
     [Alt [''function'', ''const'', ''class''], Plus rx_space, One rx_upper, Plus rx_word,
      Star rx_space, One ''({'']"

definition hasReactImport :: "string \<Rightarrow> bool" where
  "hasReactImport content =
     (strings_Contains content ''import React'' \<or>
      strings_Contains content (''from '' @ [CHR 0x27] @ ''react'' @ [CHR 0x27]) \<or>
      strings_Contains content (''from '' @ [CHR 0x22] @ ''react'' @ [CHR 0x22]))"

definition hasJSXReturn :: "string \<Rightarrow> bool" where
  "hasJSXReturn content =
     (strings_Contains content ''return ('' \<and>
      (strings_Contains content ''<'' \<and> strings_Contains content ''/>''))"

text \<open>
  In Go \<^verbatim>\<open>&&\<close> binds tighter than \<^verbatim>\<open>||\<close>: the source's
  \<^verbatim>\<open>MatchString(content) && Contains(content, "render") || Contains(content, "return")\<close>
  is a disjunction whose first disjunct is the conjunction.
\<close>

definition hasComponentDef :: "string \<Rightarrow> bool" where
  "hasComponentDef content =
     ((regexp_MatchString componentDefPattern content \<and> strings_Contains content ''render'')
      \<or> strings_Contains content ''return'')"

definition startsWithUppercase :: "string \<Rightarrow> bool" where
  "startsWithUppercase fileName =
     (case fileName of [] \<Rightarrow> False | c # _ \<Rightarrow> isUpper c)"

definition isComponentFile :: "string \<Rightarrow> string \<Rightarrow> bool" where
  "isComponentFile content fileName =
     ((hasReactImport content \<and> (hasJSXReturn content \<or> hasComponentDef content))
      \<or> startsWithUppercase fileName)"

definition hasMultipleComponents :: "string \<Rightarrow> bool" where
  "hasMultipleComponents content = (findAllCount upperComponentDefPattern content > 1)"

definition isRedux :: "string \<Rightarrow> string \<Rightarrow> bool" where
  "isRedux content path =
     (strings_Contains content ''createStore'' \<or>
      strings_Contains content ''combineReducers'' \<or>
      strings_Contains content ''createSlice'' \<or>
      strings_Contains path ''redux'' \<or>
      strings_Contains path ''store'' \<or>
      strings_Contains path ''state'' \<or>
      strings_Contains path ''reducer'' \<or>
      strings_Contains path ''action'')"

definition isOtherState :: "string \<Rightarrow> bool" where
  "isOtherState content =
     (strings_Contains content ''useContext'' \<or>
      strings_Contains content ''createContext'' \<or>
      strings_Contains content ''Provider'' \<or>
      strings_Contains content ''zustand'' \<or>
      strings_Contains content ''recoil'' \<or>
      strings_Contains content ''jotai'' \<or>
      strings_Contains content ''mobx'')"

definition isStateFile :: "string \<Rightarrow> string \<Rightarrow> bool" where
  "isStateFile content path = (isRedux content path \<or> isOtherState content)"

text \<open>
  The name \<^verbatim>\<open>parseFile\<close> gives a node (its variable \<^verbatim>\<open>componentName\<close>). For an
  index file at the project root the source assigns the project's name to
  \<^verbatim>\<open>parentDir\<close>, a variable it does not read again; the binding is kept here as
  the source has it.
\<close>

definition componentName :: "string \<Rightarrow> string \<Rightarrow> string \<Rightarrow> string" where
  "componentName path relPath rootDir =
     (let fileName = filepath_Base path;
          fileNameWithoutExt = strings_TrimSuffix fileName (filepath_Ext fileName);
          componentName = fileNameWithoutExt
      in if fileNameWithoutExt = ''index'' then
           (let parentDir = filepath_Dir relPath
            in if parentDir = ''.'' then
                 (let parentDir = filepath_Base rootDir in componentName)
               else filepath_Base parentDir @ ''/index'')
         else componentName)"

text \<open>The role \<^verbatim>\<open>parseFile\<close> assigns: the component test first, then the state test.\<close>

definition fileType :: "string \<Rightarrow> string \<Rightarrow> string \<Rightarrow> string" where
  "fileType fileContent fileName relPath =
     (if isComponentFile fileContent fileName then ''component''
      else if isStateFile fileContent relPath then ''state''
      else ''util'')"

datatype error = ReadFileError | ReadDirError | LstatError

text \<open>
  \<^verbatim>\<open>parseFile\<close>. The file's content is \<open>None\<close> when \<^verbatim>\<open>os.ReadFile\<close> fails.
  \<open>extractImports\<close> stands for the source's
  \<^verbatim>\<open>extractImports(content, dir, rootDir, aliasConfig)\<close> at the scan's root,
  alias configuration and file system: given the content and the directory of the
  file it returns the resolved import list. The results below hold for every such
  function.
\<close>

definition parseFile ::
  "(string \<Rightarrow> string \<Rightarrow> string list) \<Rightarrow> string option \<Rightarrow> string \<Rightarrow> string \<Rightarrow> string
     \<Rightarrow> error + ComponentNode" where
  "parseFile extractImports content path relPath rootDir =
     (case content of
        None \<Rightarrow> Inl ReadFileError
      | Some fileContent \<Rightarrow>
          (let fileName = filepath_Base path;
               ty = fileType fileContent fileName relPath;
               multi = (if ty = ''component'' then hasMultipleComponents fileContent else False)
           in Inr (ComponentNode relPath (componentName path relPath rootDir) relPath ty multi
                     (extractImports fileContent (filepath_Dir relPath)) [] [])))"

section \<open>The alias resolver\<close>

record AliasConfig =
  BaseURL :: string
  Aliases :: "string \<rightharpoonup> string"

text \<open>
  Go leaves the order in which \<^verbatim>\<open>range\<close> visits a map unspecified, and it may
  differ from one loop to the next. Each loop over a map therefore takes the order as
  an argument: a list that enumerates the map's keys, each once.
\<close>

definition enumerates :: "'k list \<Rightarrow> ('k \<rightharpoonup> 'v) \<Rightarrow> bool" where
  "enumerates order m = (distinct order \<and> set order = dom m)"

text \<open>
  The body of the alias loop of \<^verbatim>\<open>ResolveImportPath\<close> for an alias that
  prefix-matches the import path.
\<close>

definition aliasTarget :: "string \<Rightarrow> AliasConfig \<Rightarrow> string \<Rightarrow> string \<Rightarrow> string \<Rightarrow> string" where
  "aliasTarget importPath config projectDir alias target =
     (let relativePath = strings_TrimPrefix importPath alias;
          relativePath = (if strings_HasPrefix relativePath ''/'' then drop 1 relativePath
                          else relativePath)
      in if filepath_IsAbs target then filepath_Join [target, relativePath]
         else if BaseURL config \<noteq> [] then
           filepath_Join [projectDir, BaseURL config, target, relativePath]
         else filepath_Join [projectDir, target, relativePath])"

text \<open>
  The alias loop: the first alias in the order of the iteration that prefix-matches
  returns; \<open>None\<close> when the loop ends without a return.
\<close>

fun resolveAlias :: "string \<Rightarrow> AliasConfig \<Rightarrow> string \<Rightarrow> string list \<Rightarrow> string option" where
  "resolveAlias importPath config projectDir [] = None"
| "resolveAlias importPath config projectDir (alias # order) =
     (case Aliases config alias of
        None \<Rightarrow> resolveAlias importPath config projectDir order
      | Some target \<Rightarrow>
          if strings_HasPrefix importPath alias
          then Some (aliasTarget importPath config projectDir alias target)
          else resolveAlias importPath config projectDir order)"

definition ResolveImportPath ::
  "string \<Rightarrow> AliasConfig \<Rightarrow> string list \<Rightarrow> string \<Rightarrow> string \<Rightarrow> string" where
  "ResolveImportPath importPath config order projectDir currentDir =
     (if strings_HasPrefix importPath ''.'' then filepath_Join [currentDir, importPath]
      else if strings_HasPrefix importPath ''/'' then filepath_Join [projectDir, drop 1 importPath]
      else (case resolveAlias importPath config projectDir order of
              Some resolved \<Rightarrow> resolved
            | None \<Rightarrow>
                if BaseURL config \<noteq> [] then
                  filepath_Join [projectDir, BaseURL config, importPath]
                else filepath_Join [projectDir, importPath]))"

text \<open>The aliases of a configuration that prefix-match an import path.\<close>

definition matchingAliases :: "string \<Rightarrow> AliasConfig \<Rightarrow> string set" where
  "matchingAliases importPath config =
     {alias \<in> dom (Aliases config). strings_HasPrefix importPath alias}"

section \<open>The project and its relationships (backend.go)\<close>

record ProjectStats =
  TotalComponents :: int
  MultiCompFiles :: int
  ComponentFiles :: int
  StateFiles :: int
  UtilFiles :: int

record Project =
  Root :: ComponentNode
  NodesMap :: "string \<rightharpoonup> ComponentNode"
  Files :: "string list"
  Stats :: ProjectStats

text \<open>Assignments to the fields \<^verbatim>\<open>ImportedBy\<close> and \<^verbatim>\<open>Children\<close> of a node.\<close>

definition withImportedBy :: "string list \<Rightarrow> ComponentNode \<Rightarrow> ComponentNode" where
  "withImportedBy importedBy n =
     ComponentNode (ID n) (Name n) (Path n) (Type n) (MultipleComp n) (Imports n)
       importedBy (Children n)"

definition withChildren :: "ComponentNode list \<Rightarrow> ComponentNode \<Rightarrow> ComponentNode" where
  "withChildren children n =
     ComponentNode (ID n) (Name n) (Path n) (Type n) (MultipleComp n) (Imports n)
       (ImportedBy n) children"

text \<open>
  The inner loop of \<^verbatim>\<open>buildRelationships\<close>: for each import of the node with
  the key \<open>nid\<close> (the source's \<^verbatim>\<open>id\<close>) that is a key of the map, the node stored
  under that key is read, \<open>nid\<close> is appended to its \<^verbatim>\<open>ImportedBy\<close> and it is
  stored back.
\<close>

fun addImportedBy ::
  "string \<Rightarrow> string list \<Rightarrow> (string \<rightharpoonup> ComponentNode) \<Rightarrow> (string \<rightharpoonup> ComponentNode)" where
  "addImportedBy nid [] m = m"
| "addImportedBy nid (importPath # imports) m =
     (case m importPath of
        Some importedNode \<Rightarrow>
          addImportedBy nid imports
            (m(importPath \<mapsto> withImportedBy (ImportedBy importedNode @ [nid]) importedNode))
      | None \<Rightarrow> addImportedBy nid imports m)"

text \<open>
  The outer loop, over the keys of the map in the order \<open>order\<close> of the iteration;
  the node of a key is the one the map holds when the loop reaches the key.
\<close>

fun relationshipsLoop ::
  "string list \<Rightarrow> (string \<rightharpoonup> ComponentNode) \<Rightarrow> (string \<rightharpoonup> ComponentNode)" where
  "relationshipsLoop [] m = m"
| "relationshipsLoop (nid # order) m =
     (case m nid of
        None \<Rightarrow> relationshipsLoop order m
      | Some node \<Rightarrow> relationshipsLoop order (addImportedBy nid (Imports node) m))"

definition buildRelationships :: "string list \<Rightarrow> Project \<Rightarrow> Project" where
  "buildRelationships order project =
     project\<lparr>NodesMap := relationshipsLoop order (NodesMap project)\<rparr>"

text \<open>
  What one key of the map contributes to the reverse entries of the key \<open>k\<close>: its own
  identifier, once for every occurrence of \<open>k\<close> among its imports.
\<close>

definition reverseEntries ::
  "(string \<rightharpoonup> ComponentNode) \<Rightarrow> string \<Rightarrow> string \<Rightarrow> string list" where
  "reverseEntries m k nid =
     (case m nid of
        None \<Rightarrow> []
      | Some node \<Rightarrow> replicate (count_list (Imports node) k) nid)"

section \<open>The directory tree (backend.go)\<close>

text \<open>
  The first loop of \<^verbatim>\<open>buildTree\<close>: every node of the map, in the order of the
  iteration, is appended to the list kept under the directory of its path.
\<close>

fun groupByDir ::
  "string list \<Rightarrow> (string \<rightharpoonup> ComponentNode) \<Rightarrow> (string \<rightharpoonup> ComponentNode list)
     \<Rightarrow> (string \<rightharpoonup> ComponentNode list)" where
  "groupByDir [] nodes dirNodes = dirNodes"
| "groupByDir (k # order) nodes dirNodes =
     (case nodes k of
        None \<Rightarrow> groupByDir order nodes dirNodes
      | Some node \<Rightarrow>
          (let dir = filepath_Dir (Path node)
           in groupByDir order nodes
                (dirNodes(dir \<mapsto> (case dirNodes dir of None \<Rightarrow> [] | Some ns \<Rightarrow> ns) @ [node]))))"

text \<open>
  The test \<^verbatim>\<open>buildTreeRecursive\<close> applies to a key \<open>nodeDir\<close> of the directory map
  before it hangs a directory node for it under the directory \<open>dir\<close>.
\<close>

definition isDirectSubdir :: "string \<Rightarrow> string \<Rightarrow> bool" where
  "isDirectSubdir nodeDir dir =
     (nodeDir \<noteq> dir \<and> strings_HasPrefix nodeDir dir \<and>
      (let relDir = strings_TrimPrefix nodeDir dir
       in relDir \<noteq> [] \<and> \<not> strings_Contains (strings_TrimPrefix relDir ''/'') ''/''))"

definition subdirNode :: "string \<Rightarrow> ComponentNode" where
  "subdirNode nodeDir =
     ComponentNode nodeDir (filepath_Base nodeDir) nodeDir ''directory'' False [] [] []"

lemma filter_length_less:
  "x \<in> set xs \<Longrightarrow> Q x \<Longrightarrow> \<not> P x \<Longrightarrow> (\<And>y. P y \<Longrightarrow> Q y) \<Longrightarrow>
     length (filter P xs) < length (filter Q xs)"
proof (induction xs)
  case Nil
  then show ?case by simp
next
  case (Cons y ys)
  have le: "length (filter P ys) \<le> length (filter Q ys)"
  proof (induction ys)
    case Nil
    show ?case by simp
  next
    case (Cons z zs)
    then show ?case using \<open>\<And>y. P y \<Longrightarrow> Q y\<close> by auto
  qed
  show ?case
  proof (cases "x = y")
    case True
    with Cons.prems le show ?thesis by simp
  next
    case False
    with Cons have "length (filter P ys) < length (filter Q ys)" by simp
    then show ?thesis using Cons.prems(4) by auto
  qed
qed

lemma isDirectSubdir_longer: "isDirectSubdir nodeDir dir \<Longrightarrow> length dir < length nodeDir"
proof -
  assume a: "isDirectSubdir nodeDir dir"
  then have p: "take (length dir) nodeDir = dir" and ne: "nodeDir \<noteq> dir"
    by (simp_all add: isDirectSubdir_def strings_HasPrefix_def)
  show ?thesis
  proof (rule ccontr)
    assume "\<not> length dir < length nodeDir"
    then have "take (length dir) nodeDir = nodeDir" by simp
    with p ne show False by simp
  qed
qed

text \<open>
  \<^verbatim>\<open>buildTreeRecursive\<close>: the nodes of the directory itself, then one directory
  node for every key that passes the test, filled by the recursive call; \<open>order\<close> is
  the order in which the keys of the directory map are visited. It returns the parent
  with the children appended. Every recursive call is for a longer key, so the
  recursion ends.
\<close>

function buildTreeRecursive ::
  "ComponentNode \<Rightarrow> string \<Rightarrow> (string \<rightharpoonup> ComponentNode list) \<Rightarrow> string list \<Rightarrow> ComponentNode" where
  "buildTreeRecursive parent dir dirNodes order =
     withChildren
       (Children parent
        @ (case dirNodes dir of Some nodes \<Rightarrow> nodes | None \<Rightarrow> [])
        @ concat (map (\<lambda>nodeDir.
             if isDirectSubdir nodeDir dir
             then [buildTreeRecursive (subdirNode nodeDir) nodeDir dirNodes order]
             else []) order))
       parent"
  by pat_completeness auto
termination
proof (relation "measure (\<lambda>(parent, dir, dirNodes, order).
                   length (filter (\<lambda>k. length dir < length k) order))")
  show "wf (measure (\<lambda>(parent, dir, dirNodes, order).
                   length (filter (\<lambda>k. length dir < length k) order)))"
    by simp
next
  fix parent :: ComponentNode and dir :: string
    and dirNodes :: "string \<rightharpoonup> ComponentNode list" and order :: "string list" and nodeDir
  assume "nodeDir \<in> set order" and "isDirectSubdir nodeDir dir"
  then have "length (filter (\<lambda>k. length nodeDir < length k) order)
               < length (filter (\<lambda>k. length dir < length k) order)"
    using isDirectSubdir_longer [of nodeDir dir]
    by (intro filter_length_less [of nodeDir]) auto
  then show "((subdirNode nodeDir, nodeDir, dirNodes, order), (parent, dir, dirNodes, order))
          \<in> measure (\<lambda>(parent, dir, dirNodes, order).
                   length (filter (\<lambda>k. length dir < length k) order))"
    by simp
qed

text \<open>
  \<^verbatim>\<open>buildTree\<close>: \<open>nodeOrder\<close> is the order of the loop over the node map,
  \<open>dirOrder\<close> the order of the loops over the directory map; the recursion starts at
  the root node with the empty directory.
\<close>

definition buildTree :: "string list \<Rightarrow> string list \<Rightarrow> Project \<Rightarrow> Project" where
  "buildTree nodeOrder dirOrder project =
     (let dirNodes = groupByDir nodeOrder (NodesMap project) Map.empty
      in project\<lparr>Root := buildTreeRecursive (Root project) [] dirNodes dirOrder\<rparr>)"

section \<open>The scan (backend.go)\<close>

text \<open>
  The directory tree that \<^verbatim>\<open>filepath.Walk\<close> goes through. A file carries its name
  and its content (\<open>None\<close> when \<^verbatim>\<open>os.ReadFile\<close> fails); a directory carries its
  name and its entries in the order in which \<^verbatim>\<open>Walk\<close> visits them (sorted by name);
  \<open>UnreadableDirectory\<close> is a directory whose listing fails and \<open>BrokenEntry\<close> an
  entry on which \<^verbatim>\<open>os.Lstat\<close> fails.
\<close>

datatype fsEntry =
    File string "string option"
  | Directory string "fsEntry list"
  | UnreadableDirectory string
  | BrokenEntry string

fun entryName :: "fsEntry \<Rightarrow> string" where
  "entryName (File name content) = name"
| "entryName (Directory name entries) = name"
| "entryName (UnreadableDirectory name) = name"
| "entryName (BrokenEntry name) = name"

fun isDirectory :: "fsEntry \<Rightarrow> bool" where
  "isDirectory (Directory name entries) = True"
| "isDirectory (UnreadableDirectory name) = True"
| "isDirectory entry = False"

text \<open>
  What the callback returns: \<^verbatim>\<open>nil\<close>, \<^verbatim>\<open>filepath.SkipDir\<close> or another error.
\<close>

datatype walkResult = Continue | SkipDir | Failed error

text \<open>
  \<^verbatim>\<open>filepath.Rel(rootDir, path)\<close> for a path that \<^verbatim>\<open>Walk\<close> built from the root
  by joining the names \<open>rel\<close>: the names joined by the separator, and \<^verbatim>\<open>.\<close> for the
  root itself.
\<close>

definition relPathOf :: "string list \<Rightarrow> string" where
  "relPathOf rel = (if rel = [] then ''.'' else joinSep rel)"

text \<open>The skip rule of the callback, on the name of a directory.\<close>

definition skipDirName :: "string \<Rightarrow> bool" where
  "skipDirName name =
     (name = ''node_modules'' \<or> name = ''build'' \<or> name = ''dist''
      \<or> strings_HasPrefix name ''.'')"

text \<open>The counters that the registration of a node increments.\<close>

definition updateStats :: "ComponentNode \<Rightarrow> ProjectStats \<Rightarrow> ProjectStats" where
  "updateStats node stats =
     (let stats = stats\<lparr>TotalComponents := TotalComponents stats + 1\<rparr>
      in if Type node = ''component'' then
           (let stats = stats\<lparr>ComponentFiles := ComponentFiles stats + 1\<rparr>
            in if MultipleComp node
               then stats\<lparr>MultiCompFiles := MultiCompFiles stats + 1\<rparr>
               else stats)
         else if Type node = ''state'' then stats\<lparr>StateFiles := StateFiles stats + 1\<rparr>
         else if Type node = ''util'' then stats\<lparr>UtilFiles := UtilFiles stats + 1\<rparr>
         else stats)"

definition registerNode :: "ComponentNode \<Rightarrow> Project \<Rightarrow> Project" where
  "registerNode node project =
     (if Name node \<noteq> [] then
        project\<lparr>NodesMap := (NodesMap project)(ID node \<mapsto> node),
                 Stats := updateStats node (Stats project)\<rparr>
      else project)"

text \<open>
  The callback \<^verbatim>\<open>ScanProject\<close> hands to \<^verbatim>\<open>Walk\<close>, for the entry at \<open>path\<close>, which
  lies \<open>rel\<close> below the root. \<^verbatim>\<open>Walk\<close> calls it with an error for an entry it
  cannot stat and for a directory it cannot list, and the callback returns that error
  before any other test.
\<close>

definition walkFn ::
  "(string \<Rightarrow> string \<Rightarrow> string list) \<Rightarrow> string \<Rightarrow> string \<Rightarrow> string list \<Rightarrow> fsEntry \<Rightarrow> Project
     \<Rightarrow> walkResult \<times> Project" where
  "walkFn extractImports rootDir path rel entry project =
     (case entry of
        BrokenEntry name \<Rightarrow> (Failed LstatError, project)
      | UnreadableDirectory name \<Rightarrow> (Failed ReadDirError, project)
      | Directory name entries \<Rightarrow>
          if skipDirName name then (SkipDir, project) else (Continue, project)
      | File name content \<Rightarrow>
          if isReactFile name then
            (let relPath = relPathOf rel;
                 project = project\<lparr>Files := Files project @ [relPath]\<rparr>
             in case parseFile extractImports content path relPath rootDir of
                  Inl err \<Rightarrow> (Failed err, project)
                | Inr node \<Rightarrow> (Continue, registerNode node project))
          else (Continue, project))"

text \<open>
  The recursion of \<^verbatim>\<open>filepath.Walk\<close>: the callback on the entry; for a directory
  on which the callback returns \<^verbatim>\<open>nil\<close>, the entries in turn. An error ends the
  walk; \<^verbatim>\<open>SkipDir\<close> from a directory only keeps the walk out of that directory.
\<close>

fun walk ::
  "(string \<Rightarrow> string \<Rightarrow> string list) \<Rightarrow> string \<Rightarrow> string \<Rightarrow> string list \<Rightarrow> fsEntry \<Rightarrow> Project
     \<Rightarrow> walkResult \<times> Project"
and walkEntries ::
  "(string \<Rightarrow> string \<Rightarrow> string list) \<Rightarrow> string \<Rightarrow> string \<Rightarrow> string list \<Rightarrow> fsEntry list \<Rightarrow> Project
     \<Rightarrow> walkResult \<times> Project" where
  "walk extractImports rootDir path rel (Directory name entries) project =
     (case walkFn extractImports rootDir path rel (Directory name entries) project of
        (Continue, project') \<Rightarrow> walkEntries extractImports rootDir path rel entries project'
      | (result, project') \<Rightarrow> (result, project'))"
| "walk extractImports rootDir path rel (File name content) project =
     walkFn extractImports rootDir path rel (File name content) project"
| "walk extractImports rootDir path rel (UnreadableDirectory name) project =
     walkFn extractImports rootDir path rel (UnreadableDirectory name) project"
| "walk extractImports rootDir path rel (BrokenEntry name) project =
     walkFn extractImports rootDir path rel (BrokenEntry name) project"
| "walkEntries extractImports rootDir path rel [] project = (Continue, project)"
| "walkEntries extractImports rootDir path rel (entry # entries) project =
     (case walk extractImports rootDir (filepath_Join [path, entryName entry])
             (rel @ [entryName entry]) entry project of
        (Continue, project') \<Rightarrow> walkEntries extractImports rootDir path rel entries project'
      | (SkipDir, project') \<Rightarrow>
          if isDirectory entry
          then walkEntries extractImports rootDir path rel entries project'
          else (SkipDir, project')
      | (Failed err, project') \<Rightarrow> (Failed err, project'))"

text \<open>\<^verbatim>\<open>filepath.Walk\<close> itself: \<^verbatim>\<open>SkipDir\<close> from the root is no error.\<close>

definition filepath_Walk ::
  "(string \<Rightarrow> string \<Rightarrow> string list) \<Rightarrow> string \<Rightarrow> fsEntry \<Rightarrow> Project \<Rightarrow> Project \<times> error option" where
  "filepath_Walk extractImports rootDir root project =
     (case walk extractImports rootDir rootDir [] root project of
        (Failed err, project') \<Rightarrow> (project', Some err)
      | (result, project') \<Rightarrow> (project', None))"

definition emptyProject :: "string \<Rightarrow> Project" where
  "emptyProject rootDir =
     \<lparr>Root = ComponentNode ''root'' (filepath_Base rootDir) rootDir ''root'' False [] [] [],
      NodesMap = Map.empty,
      Files = [],
      Stats = \<lparr>TotalComponents = 0, MultiCompFiles = 0, ComponentFiles = 0,
               StateFiles = 0, UtilFiles = 0\<rparr>\<rparr>"

text \<open>
  \<^verbatim>\<open>ScanProject\<close> returns the project and an error. The alias configuration it reads
  first is used by \<^verbatim>\<open>extractImports\<close> only, which is an argument here (see
  \<open>parseFile\<close>). \<open>relOrder\<close>, \<open>nodeOrder\<close> and \<open>dirOrder\<close> are the orders of the
  iterations over the maps in \<^verbatim>\<open>buildRelationships\<close> and \<^verbatim>\<open>buildTree\<close>. The
  counters are Go \<^verbatim>\<open>int\<close>s; each counts files of the tree, so they stay far below
  the 64-bit limit and are integers here.
\<close>

definition ScanProject ::
  "(string \<Rightarrow> string \<Rightarrow> string list) \<Rightarrow> string \<Rightarrow> fsEntry
     \<Rightarrow> string list \<Rightarrow> string list \<Rightarrow> string list \<Rightarrow> Project \<times> error option" where
  "ScanProject extractImports rootDir root relOrder nodeOrder dirOrder =
     (case filepath_Walk extractImports rootDir root (emptyProject rootDir) of
        (project, Some err) \<Rightarrow> (project, Some err)
      | (project, None) \<Rightarrow>
          (buildTree nodeOrder dirOrder (buildRelationships relOrder project), None))"

text \<open>
  Where an entry lies in a tree: \<open>locatedAt root rel entry\<close> when following the names
  \<open>rel\<close> from \<open>root\<close> down leads to \<open>entry\<close>; \<open>visibleAt\<close> when moreover no
  directory passed on the way (the root included, the entry itself not) is named
  \<^verbatim>\<open>node_modules\<close>, \<^verbatim>\<open>build\<close>, \<^verbatim>\<open>dist\<close> or with a leading dot; \<open>prunedAt\<close>
  when at least one of them is.
\<close>

fun locatedAt :: "fsEntry \<Rightarrow> string list \<Rightarrow> fsEntry \<Rightarrow> bool" where
  "locatedAt root [] entry = (entry = root)"
| "locatedAt (Directory name entries) (n # rel) entry =
     (\<exists>child \<in> set entries. entryName child = n \<and> locatedAt child rel entry)"
| "locatedAt root (n # rel) entry = False"

fun visibleAt :: "fsEntry \<Rightarrow> string list \<Rightarrow> fsEntry \<Rightarrow> bool" where
  "visibleAt root [] entry = (entry = root)"
| "visibleAt (Directory name entries) (n # rel) entry =
     (\<not> skipDirName name \<and>
      (\<exists>child \<in> set entries. entryName child = n \<and> visibleAt child rel entry))"
| "visibleAt root (n # rel) entry = False"

fun prunedAt :: "fsEntry \<Rightarrow> string list \<Rightarrow> fsEntry \<Rightarrow> bool" where
  "prunedAt root [] entry = False"
| "prunedAt (Directory name entries) (n # rel) entry =
     (\<exists>child \<in> set entries. entryName child = n \<and>
        (if skipDirName name then locatedAt child rel entry else prunedAt child rel entry))"
| "prunedAt root (n # rel) entry = False"

text \<open>
  The names of a directory listing are not empty, hold no separator and are not
  \<^verbatim>\<open>.\<close> or \<^verbatim>\<open>..\<close>; \<open>plainTree\<close> says so of every entry below the root.
\<close>

fun plainTree :: "fsEntry \<Rightarrow> bool" where
  "plainTree (Directory name entries) =
     (\<forall>child \<in> set entries. plainName (entryName child) \<and> plainTree child)"
| "plainTree entry = True"

text \<open>The entries of a directory have names that differ from each other.\<close>

fun distinctNames :: "fsEntry \<Rightarrow> bool" where
  "distinctNames (Directory name entries) =
     (distinct (map entryName entries) \<and> (\<forall>child \<in> set entries. distinctNames child))"
| "distinctNames entry = True"

text \<open>The path \<^verbatim>\<open>Walk\<close> builds for the entry that lies \<open>rel\<close> below \<open>path\<close>.\<close>

fun walkPath :: "string \<Rightarrow> string list \<Rightarrow> string" where
  "walkPath path [] = path"
| "walkPath path (n # rel) = walkPath (filepath_Join [path, n]) rel"

text \<open>The three roles \<^verbatim>\<open>parseFile\<close> assigns.\<close>

definition isRole :: "string \<Rightarrow> bool" where
  "isRole ty = (ty = ''component'' \<or> ty = ''state'' \<or> ty = ''util'')"

definition statsConsistent :: "ProjectStats \<Rightarrow> bool" where
  "statsConsistent stats =
     (TotalComponents stats = ComponentFiles stats + StateFiles stats + UtilFiles stats
      \<and> MultiCompFiles stats \<le> ComponentFiles stats)"

section \<open>Example inputs\<close>

definition exampleRoot :: ComponentNode where
  "exampleRoot = ComponentNode ''root'' ''proj'' ''/proj'' ''root'' False [] [] []"

definition utilNode :: "string \<Rightarrow> string \<Rightarrow> string list \<Rightarrow> ComponentNode" where
  "utilNode relPath name importList =
     ComponentNode relPath name relPath ''util'' False importList [] []"

text \<open>A registry of two files, \<^verbatim>\<open>src/a.js\<close> and \<^verbatim>\<open>srcfoo/b.js\<close>.\<close>

definition exampleTwoDirs :: Project where
  "exampleTwoDirs =
     \<lparr>Root = exampleRoot,
      NodesMap = [''src/a.js'' \<mapsto> utilNode ''src/a.js'' ''a'' [],
                  ''srcfoo/b.js'' \<mapsto> utilNode ''srcfoo/b.js'' ''b'' []],
      Files = [''src/a.js'', ''srcfoo/b.js''],
      Stats = \<lparr>TotalComponents = 2, MultiCompFiles = 0, ComponentFiles = 0,
               StateFiles = 0, UtilFiles = 2\<rparr>\<rparr>"

text \<open>A registry of one file, \<^verbatim>\<open>index.js\<close> in the project root.\<close>

definition exampleRootIndex :: Project where
  "exampleRootIndex =
     \<lparr>Root = exampleRoot,
      NodesMap = [''index.js'' \<mapsto> utilNode ''index.js'' ''index'' []],
      Files = [''index.js''],
      Stats = \<lparr>TotalComponents = 1, MultiCompFiles = 0, ComponentFiles = 0,
               StateFiles = 0, UtilFiles = 1\<rparr>\<rparr>"

text \<open>
  A registry of two files: \<^verbatim>\<open>a.js\<close> imports \<^verbatim>\<open>b.js\<close> twice and a path that is
  no key of the registry, \<^verbatim>\<open>b.js\<close> imports \<^verbatim>\<open>a.js\<close>.
\<close>

definition exampleImports :: Project where
  "exampleImports =
     \<lparr>Root = exampleRoot,
      NodesMap = [''a.js'' \<mapsto> utilNode ''a.js'' ''a'' [''b.js'', ''b.js'', ''lib/missing''],
                  ''b.js'' \<mapsto> utilNode ''b.js'' ''b'' [''a.js'']],
      Files = [''a.js'', ''b.js''],
      Stats = \<lparr>TotalComponents = 2, MultiCompFiles = 0, ComponentFiles = 0,
               StateFiles = 0, UtilFiles = 2\<rparr>\<rparr>"

section \<open>Reading the project configuration\<close>

text \<open>
  \<^verbatim>\<open>strings.Replace(s, old, new, 1)\<close>: the first occurrence of \<open>old\<close> is replaced.
\<close>

fun strings_Replace1 :: "string \<Rightarrow> string \<Rightarrow> string \<Rightarrow> string" where
  "strings_Replace1 [] old new = (if old = [] then new else [])"
| "strings_Replace1 (c # cs) old new =
     (if strings_HasPrefix (c # cs) old then new @ drop (length old) (c # cs)
      else c # strings_Replace1 cs old new)"

text \<open>
  The state of a file of the project root as the loader meets it: \<open>Absent\<close> when
  \<^verbatim>\<open>os.Stat\<close> fails, \<open>Unreadable\<close> when \<^verbatim>\<open>os.Stat\<close> succeeds and
  \<^verbatim>\<open>os.ReadFile\<close> fails, \<open>Readable\<close> with the content otherwise.
\<close>

datatype 'a fileState = Absent | Unreadable | Readable 'a

text \<open>
  The structs \<^verbatim>\<open>JSConfig\<close> and \<^verbatim>\<open>PackageJSON\<close> that \<^verbatim>\<open>json.Unmarshal\<close> fills. A
  Go map that the loader ranges over is the list of its entries in the order of the
  iteration.
\<close>

record JSConfig =
  CompilerOptions_BaseURL :: string
  CompilerOptions_Paths :: "(string \<times> string list) list"

record PackageJSON =
  Alias :: "(string \<times> string) list"
  Jest_ModuleNameMapper :: "(string \<times> string) list"

text \<open>
  What the regular expressions of \<^verbatim>\<open>parseJSConfig\<close> find in a JavaScript
  configuration file: for each of the two \<^verbatim>\<open>baseUrl\<close> patterns, in order, its
  capture group if the pattern matches; and for each of the two alias patterns, in
  order, the key-value pairs found in the block it captures (none if it does not
  match).
\<close>

record JSFindings =
  baseUrlGroups :: "string option list"
  aliasPairs :: "(string \<times> string) list list"

text \<open>
  The content of a configuration file is given by what the library calls of the loader
  make of its bytes: \<^verbatim>\<open>json.Unmarshal\<close> into a \<^verbatim>\<open>JSConfig\<close> and into a
  \<^verbatim>\<open>PackageJSON\<close> (\<open>None\<close> when it returns an error), and the regular expressions
  of \<^verbatim>\<open>parseJSConfig\<close>. The loader uses one of the three, by the file's name.
\<close>

record FileViews =
  asJSConfig :: "JSConfig option"
  asPackageJSON :: "PackageJSON option"
  asJSFindings :: JSFindings

text \<open>The files of the project root, by name.\<close>

type_synonym rootFiles = "string \<Rightarrow> FileViews fileState"

definition defaultConfig :: AliasConfig where
  "defaultConfig = \<lparr>BaseURL = [], Aliases = Map.empty\<rparr>"

definition configFiles :: "string list" where
  "configFiles =
     [''jsconfig.json'', ''tsconfig.json'', ''webpack.config.js'', ''craco.config.js'',
      ''.babelrc'', ''babel.config.js'', ''package.json'']"

text \<open>The loop of \<^verbatim>\<open>parseJSONConfig\<close> over \<^verbatim>\<open>compilerOptions.paths\<close>.\<close>

fun addPaths :: "(string \<times> string list) list \<Rightarrow> (string \<rightharpoonup> string) \<Rightarrow> (string \<rightharpoonup> string)" where
  "addPaths [] aliases = aliases"
| "addPaths ((aliasPattern, targetPaths) # paths) aliases =
     (case targetPaths of
        [] \<Rightarrow> addPaths paths aliases
      | first # _ \<Rightarrow>
          addPaths paths
            (aliases(strings_TrimSuffix aliasPattern ''/*'' \<mapsto> strings_TrimSuffix first ''/*'')))"

definition applyJSConfig :: "JSConfig \<Rightarrow> AliasConfig \<Rightarrow> AliasConfig" where
  "applyJSConfig jsConfig config =
     config\<lparr>BaseURL := CompilerOptions_BaseURL jsConfig,
            Aliases := addPaths (CompilerOptions_Paths jsConfig) (Aliases config)\<rparr>"

text \<open>The two loops of \<^verbatim>\<open>parseJSONConfig\<close> over a package descriptor.\<close>

fun addAliases :: "(string \<times> string) list \<Rightarrow> (string \<rightharpoonup> string) \<Rightarrow> (string \<rightharpoonup> string)" where
  "addAliases [] aliases = aliases"
| "addAliases ((alias, target) # rest) aliases = addAliases rest (aliases(alias \<mapsto> target))"

fun addModuleNameMapper ::
  "(string \<times> string) list \<Rightarrow> (string \<rightharpoonup> string) \<Rightarrow> (string \<rightharpoonup> string)" where
  "addModuleNameMapper [] aliases = aliases"
| "addModuleNameMapper ((pattern, target) # rest) aliases =
     (let alias = strings_TrimPrefix pattern ''^'';
          alias = strings_TrimSuffix alias ''/(.*)$'';
          alias = strings_TrimSuffix alias ''(.*)$'';
          target = strings_Replace1 target ''<rootDir>/'' [];
          target = strings_TrimSuffix target ''/$1''
      in if alias \<noteq> [] \<and> target \<noteq> []
         then addModuleNameMapper rest (aliases(alias \<mapsto> target))
         else addModuleNameMapper rest aliases)"

definition applyPackageJSON :: "PackageJSON \<Rightarrow> AliasConfig \<Rightarrow> AliasConfig" where
  "applyPackageJSON packageJSON config =
     config\<lparr>Aliases :=
        addModuleNameMapper (Jest_ModuleNameMapper packageJSON)
          (addAliases (Alias packageJSON) (Aliases config))\<rparr>"

text \<open>
  \<^verbatim>\<open>parseJSONConfig\<close> returns an error (the first component) and leaves the
  configuration it was given updated (the second). A file it cannot read is its only
  error: when \<^verbatim>\<open>json.Unmarshal\<close> fails it falls through to the final
  \<^verbatim>\<open>return nil\<close>.
\<close>

definition parsePackageJSON :: "string \<Rightarrow> FileViews \<Rightarrow> AliasConfig \<Rightarrow> AliasConfig" where
  "parsePackageJSON configPath data config =
     (if strings_HasSuffix configPath ''package.json'' then
        (case asPackageJSON data of
           Some packageJSON \<Rightarrow> applyPackageJSON packageJSON config
         | None \<Rightarrow> config)
      else config)"

definition parseJSONConfig ::
  "string \<Rightarrow> FileViews fileState \<Rightarrow> AliasConfig \<Rightarrow> error option \<times> AliasConfig" where
  "parseJSONConfig configPath file config =
     (case file of
        Readable data \<Rightarrow>
          if strings_HasSuffix configPath ''jsconfig.json''
             \<or> strings_HasSuffix configPath ''tsconfig.json''
          then (case asJSConfig data of
                  Some jsConfig \<Rightarrow> (None, applyJSConfig jsConfig config)
                | None \<Rightarrow> (None, parsePackageJSON configPath data config))
          else (None, parsePackageJSON configPath data config)
      | _ \<Rightarrow> (Some ReadFileError, config))"

text \<open>
  \<^verbatim>\<open>parseJSConfig\<close>: the first \<^verbatim>\<open>baseUrl\<close> pattern that matches sets the base
  URL; every key-value pair of every alias block is stored. A file that cannot be
  read changes nothing.
\<close>

definition setBaseURL :: "string option list \<Rightarrow> AliasConfig \<Rightarrow> AliasConfig" where
  "setBaseURL groups config =
     (case List.map_filter (\<lambda>g. g) groups of
        [] \<Rightarrow> config
      | g # _ \<Rightarrow> config\<lparr>BaseURL := g\<rparr>)"

definition parseJSConfig :: "FileViews fileState \<Rightarrow> AliasConfig \<Rightarrow> AliasConfig" where
  "parseJSConfig file config =
     (case file of
        Readable data \<Rightarrow>
          (let config = setBaseURL (baseUrlGroups (asJSFindings data)) config
           in config\<lparr>Aliases :=
                addAliases (concat (aliasPairs (asJSFindings data))) (Aliases config)\<rparr>)
      | _ \<Rightarrow> config)"

text \<open>
  The loop of \<^verbatim>\<open>ReadProjectConfig\<close> over the candidates that are left, and what
  follows the loop: the default base URL \<^verbatim>\<open>src\<close> when the root has such an entry.
\<close>

fun searchConfig :: "string \<Rightarrow> rootFiles \<Rightarrow> string list \<Rightarrow> AliasConfig \<Rightarrow> AliasConfig" where
  "searchConfig rootDir files [] config =
     (if files ''src'' \<noteq> Absent then config\<lparr>BaseURL := ''src''\<rparr> else config)"
| "searchConfig rootDir files (configFile # candidates) config =
     (if files configFile \<noteq> Absent then
        (if filepath_Ext configFile = ''.json'' then
           (case parseJSONConfig (filepath_Join [rootDir, configFile]) (files configFile) config of
              (None, config') \<Rightarrow> config'
            | (Some err, config') \<Rightarrow> searchConfig rootDir files candidates config')
         else if filepath_Ext configFile = ''.js'' then
           searchConfig rootDir files candidates (parseJSConfig (files configFile) config)
         else searchConfig rootDir files candidates config)
      else searchConfig rootDir files candidates config)"

definition ReadProjectConfig :: "string \<Rightarrow> rootFiles \<Rightarrow> AliasConfig" where
  "ReadProjectConfig rootDir files = searchConfig rootDir files configFiles defaultConfig"

text \<open>A candidate that is missing or cannot be read.\<close>

definition unavailable :: "'a fileState \<Rightarrow> bool" where
  "unavailable file = (file = Absent \<or> file = Unreadable)"

text \<open>Configuration files: contents and project roots.\<close>

definition noViews :: FileViews where
  "noViews =
     \<lparr>asJSConfig = None, asPackageJSON = None,
      asJSFindings = \<lparr>baseUrlGroups = [None, None], aliasPairs = [[], []]\<rparr>\<rparr>"

definition exampleJSConfig :: JSConfig where
  "exampleJSConfig =
     \<lparr>CompilerOptions_BaseURL = ''app'', CompilerOptions_Paths = [(''@/*'', [''src/*''])]\<rparr>"

definition otherJSConfig :: JSConfig where
  "otherJSConfig = \<lparr>CompilerOptions_BaseURL = ''other'', CompilerOptions_Paths = []\<rparr>"

definition examplePackageJSON :: PackageJSON where
  "examplePackageJSON =
     \<lparr>Alias = [(''@'', ''src'')],
      Jest_ModuleNameMapper = [(''^components/(.*)$'', ''<rootDir>/src/components/$1'')]\<rparr>"

definition exampleWebpack :: JSFindings where
  "exampleWebpack =
     \<lparr>baseUrlGroups = [None, Some ''app''], aliasPairs = [[(''ui'', ''lib/ui'')], []]\<rparr>"

text \<open>Both \<^verbatim>\<open>jsconfig.json\<close> and \<^verbatim>\<open>tsconfig.json\<close> are there and parse.\<close>

definition filesJsconfigFirst :: rootFiles where
  "filesJsconfigFirst =
     (\<lambda>name. Absent)
       (''jsconfig.json'' := Readable (noViews\<lparr>asJSConfig := Some exampleJSConfig\<rparr>),
        ''tsconfig.json'' := Readable (noViews\<lparr>asJSConfig := Some otherJSConfig\<rparr>))"

text \<open>
  \<^verbatim>\<open>jsconfig.json\<close> cannot be read; \<^verbatim>\<open>tsconfig.json\<close> and \<^verbatim>\<open>package.json\<close>
  parse.
\<close>

definition filesTsconfigFirst :: rootFiles where
  "filesTsconfigFirst =
     (\<lambda>name. Absent)
       (''jsconfig.json'' := Unreadable,
        ''tsconfig.json'' := Readable (noViews\<lparr>asJSConfig := Some exampleJSConfig\<rparr>),
        ''package.json'' := Readable (noViews\<lparr>asPackageJSON := Some examplePackageJSON\<rparr>))"

text \<open>
  No \<^verbatim>\<open>jsconfig.json\<close>, an unreadable \<^verbatim>\<open>tsconfig.json\<close>, a
  \<^verbatim>\<open>webpack.config.js\<close> with a base URL and an alias, a \<^verbatim>\<open>package.json\<close> that
  parses, and a directory \<^verbatim>\<open>src\<close>.
\<close>

definition filesWebpackAndPackage :: rootFiles where
  "filesWebpackAndPackage =
     (\<lambda>name. Absent)
       (''tsconfig.json'' := Unreadable,
        ''webpack.config.js'' := Readable (noViews\<lparr>asJSFindings := exampleWebpack\<rparr>),
        ''package.json'' := Readable (noViews\<lparr>asPackageJSON := Some examplePackageJSON\<rparr>),
        ''src'' := Readable noViews)"

text \<open>The same \<^verbatim>\<open>package.json\<close> without the \<^verbatim>\<open>webpack.config.js\<close>.\<close>

definition filesPackageOnly :: rootFiles where
  "filesPackageOnly =
     (\<lambda>name. Absent)
       (''package.json'' := Readable (noViews\<lparr>asPackageJSON := Some examplePackageJSON\<rparr>),
        ''src'' := Readable noViews)"

text \<open>
  A \<^verbatim>\<open>jsconfig.json\<close> that can be read and is not JSON, and a \<^verbatim>\<open>tsconfig.json\<close>
  that parses.
\<close>

definition filesMalformedJsconfig :: rootFiles where
  "filesMalformedJsconfig =
     (\<lambda>name. Absent)
       (''jsconfig.json'' := Readable noViews,
        ''tsconfig.json'' := Readable (noViews\<lparr>asJSConfig := Some exampleJSConfig\<rparr>))"

section \<open>Invariants of the scan and an example tree\<close>

text \<open>
  Every registered node has one of the three roles.
\<close>

definition rolesRegistered :: "Project \<Rightarrow> bool" where
  "rolesRegistered project = (\<forall>k node. NodesMap project k = Some node \<longrightarrow> isRole (Type node))"

text \<open>
  Every registered node is registered under its own identifier, which is also its path.
\<close>

definition keysAreIDs :: "Project \<Rightarrow> bool" where
  "keysAreIDs project =
     (\<forall>k node. NodesMap project k = Some node \<longrightarrow> ID node = k \<and> Path node = k)"

text \<open>
  The relative paths of the files that are visible from an entry, the entry lying
  \<open>rel\<close> below the root of the scan.
\<close>

definition visiblePaths :: "string list \<Rightarrow> fsEntry \<Rightarrow> string set" where
  "visiblePaths rel entry =
     {relPathOf (rel @ s) | s name content. visibleAt entry s (File name content)}"

text \<open>
  What a part of the walk may change: the file list gains paths of \<open>W\<close> only, and
  the registry changes at keys of \<open>W\<close> only.
\<close>

definition framed :: "string set \<Rightarrow> Project \<Rightarrow> Project \<Rightarrow> bool" where
  "framed W project project' =
     (set (Files project') \<subseteq> set (Files project) \<union> W
      \<and> (\<forall>k. k \<notin> W \<longrightarrow> NodesMap project' k = NodesMap project k))"

text \<open>
  The path \<open>k\<close> is in the file list and, when the file has a display name, a key of
  the registry.
\<close>

definition present :: "string \<Rightarrow> bool \<Rightarrow> Project \<Rightarrow> bool" where
  "present k named project =
     (k \<in> set (Files project) \<and> (named \<longrightarrow> k \<in> dom (NodesMap project)))"

text \<open>
  A project root with a hidden file, a \<^verbatim>\<open>.git\<close> and a \<^verbatim>\<open>node_modules\<close>
  directory, and a source directory that holds a file named \<^verbatim>\<open>.ts\<close> and a file
  that is no source file and cannot be read.
\<close>

definition exampleTree :: fsEntry where
  "exampleTree =
     Directory ''proj''
       [Directory ''.git'' [File ''hook.js'' (Some ''module.exports = 1'')],
        File ''.hidden.ts'' (Some ''export const x = 1''),
        File ''App.jsx'' (Some ''export default 1''),
        Directory ''node_modules''
          [Directory ''react'' [File ''index.js'' (Some ''module.exports = 2'')]],
        Directory ''src''
          [File ''.ts'' (Some ''export {}''),
           File ''index.ts'' (Some ''export const y = 2''),
           File ''readme.md'' None,
           File ''store.js'' (Some ''export const z = 3'')]]"

text \<open>
  The keys of the registry after the scan of the example tree, in one order.
\<close>

definition exampleOrder :: "string list" where
  "exampleOrder = [''.hidden.ts'', ''App.jsx'', ''src/index.ts'', ''src/store.js'']"

text \<open>
  The scan of the example tree, with no imports extracted.
\<close>

definition exampleScan :: "Project \<times> error option" where
  "exampleScan =
     ScanProject (\<lambda>content dir. []) ''/home/u/proj'' exampleTree
       exampleOrder exampleOrder [''.'', ''src'']"

section \<open>Properties of the classifier\<close>

lemma parseFile_Type:
  "parseFile extractImports (Some content) path relPath rootDir = Inr node \<Longrightarrow>
     Type node = fileType content (filepath_Base path) relPath"
  by (auto simp: parseFile_def Let_def)

lemma fileType_state_iff:
  "(fileType content fileName relPath = ''state'') =
     (\<not> isComponentFile content fileName \<and> isStateFile content relPath)"
  by (simp add: fileType_def)

text \<open>
  C1 (as the code has it). \<^verbatim>\<open>parseFile\<close> tests the component rule first. A file
  gets the role \<^verbatim>\<open>state\<close> exactly when the component rule rejects it and its
  content or path matches a state-management signature; a file the component rule
  accepts is a component whatever state signatures it matches.
\<close>

theorem parseFile_state_after_component:
  assumes "parseFile extractImports (Some content) path relPath rootDir = Inr node"
  shows "((Type node = ''state'') =
            (\<not> isComponentFile content (filepath_Base path) \<and> isStateFile content relPath))
         \<and> ((Type node = ''component'') = isComponentFile content (filepath_Base path))"
  using parseFile_Type [OF assms] by (simp add: fileType_state_iff) (simp add: fileType_def)

text \<open>
  Witness for C1: \<^verbatim>\<open>src/store/userSlice.js\<close> with the content
  \<^verbatim>\<open>createSlice\<close> (Scenario B of the specification) is a state file.
\<close>

theorem parseFile_state_after_component_witness:
  "parseFile (\<lambda>content dir. []) (Some ''createSlice'') ''/proj/src/store/userSlice.js''
      ''src/store/userSlice.js'' ''/proj''
     = Inr (ComponentNode ''src/store/userSlice.js'' ''userSlice'' ''src/store/userSlice.js''
              ''state'' False [] [] [])
   \<and> \<not> isComponentFile ''createSlice'' (filepath_Base ''/proj/src/store/userSlice.js'')
   \<and> isStateFile ''createSlice'' ''src/store/userSlice.js''"
proof -
  let ?n = "ComponentNode ''src/store/userSlice.js'' ''userSlice'' ''src/store/userSlice.js''
              ''state'' False [] [] []"
  have run: "parseFile (\<lambda>content dir. []) (Some ''createSlice'') ''/proj/src/store/userSlice.js''
      ''src/store/userSlice.js'' ''/proj'' = Inr ?n"
    by code_simp
  have "Type ?n = ''state''" by simp
  with parseFile_state_after_component [OF run] run show ?thesis by simp
qed

text \<open>
  Counterexample to C1 as stated: \<^verbatim>\<open>src/store/UserSlice.js\<close> containing
  \<^verbatim>\<open>createSlice\<close> matches the state signatures (content and path), yet the
  component rule is consulted first and makes it a component.
\<close>

theorem state_rule_first_counterexample:
  "isStateFile ''createSlice'' ''src/store/UserSlice.js''
   \<and> fileType ''createSlice'' (filepath_Base ''/proj/src/store/UserSlice.js'')
        ''src/store/UserSlice.js'' = ''component''"
  by code_simp

text \<open>
  C2 (the code at the failing input). The text
  \<^verbatim>\<open>import React from 'react'; export default () => { return null; }\<close> in
  \<^verbatim>\<open>helper.js\<close> has a React import and the token \<^verbatim>\<open>return\<close>, no
  function/const/class declaration, no JSX return pattern and a lower-case name; the
  claim says it is not a component, \<^verbatim>\<open>isComponentFile\<close> says it is.
\<close>

theorem isComponentFile_return_only:
  "hasReactImport (''import React from '' @ [CHR 0x27] @ ''react'' @ [CHR 0x27]
       @ ''; export default () => { return null; }'')
   \<and> strings_Contains (''import React from '' @ [CHR 0x27] @ ''react'' @ [CHR 0x27]
       @ ''; export default () => { return null; }'') ''return''
   \<and> \<not> regexp_MatchString componentDefPattern (''import React from '' @ [CHR 0x27] @ ''react''
       @ [CHR 0x27] @ ''; export default () => { return null; }'')
   \<and> \<not> hasJSXReturn (''import React from '' @ [CHR 0x27] @ ''react'' @ [CHR 0x27]
       @ ''; export default () => { return null; }'')
   \<and> \<not> startsWithUppercase ''helper.js''
   \<and> isComponentFile (''import React from '' @ [CHR 0x27] @ ''react'' @ [CHR 0x27]
       @ ''; export default () => { return null; }'') ''helper.js''"
  by code_simp

text \<open>
  C3 (the code at the failing input). For \<^verbatim>\<open>index.js\<close> directly in the project
  root \<^verbatim>\<open>/home/u/proj\<close> the claim gives the display name \<^verbatim>\<open>proj\<close>; the node
  \<^verbatim>\<open>parseFile\<close> builds is named \<^verbatim>\<open>index\<close>.
\<close>

theorem componentName_root_index:
  "filepath_Base ''/home/u/proj'' = ''proj''
   \<and> componentName ''/home/u/proj/index.js'' ''index.js'' ''/home/u/proj'' = ''index''"
  by code_simp

section \<open>Properties of the alias resolver\<close>

lemma resolveAlias_find:
  "resolveAlias ip config pd order =
     (case find (\<lambda>a. a \<in> dom (Aliases config) \<and> strings_HasPrefix ip a) order of
        None \<Rightarrow> None
      | Some a \<Rightarrow> Some (aliasTarget ip config pd a (the (Aliases config a))))"
  by (induction order) (auto split: option.splits)

lemma find_unique:
  assumes "\<forall>x\<in>set xs. \<forall>y\<in>set ys. P x \<and> P y \<longrightarrow> x = y" "set xs = set ys"
  shows "find P xs = find P ys"
proof (cases "\<exists>x\<in>set xs. P x")
  case True
  then obtain a where a: "find P xs = Some a"
    by (metis find_None_iff not_None_eq)
  from True assms(2) obtain b where b: "find P ys = Some b" 
    by (metis find_None_iff not_None_eq)
  from a have "P a" "a \<in> set xs" by (auto simp: find_Some_iff)
  moreover from b have "P b" "b \<in> set ys" by (auto simp: find_Some_iff)
  ultimately have "a = b" using assms(1) by blast
  with a b show ?thesis by simp
next
  case False
  with assms(2) have "find P xs = None" "find P ys = None"
    by (auto simp: find_None_iff)
  then show ?thesis by simp
qed

text \<open>
  C4 (as the code has it). Two calls of \<^verbatim>\<open>ResolveImportPath\<close> with the same
  specifier, configuration, project root and current directory return the same path,
  whatever order each call's loop over the alias map takes, when the specifier starts
  with \<^verbatim>\<open>.\<close> or \<^verbatim>\<open>/\<close> (the aliases are not consulted) or at most one
  configured alias prefix-matches it.
\<close>

theorem ResolveImportPath_deterministic:
  assumes "enumerates order1 (Aliases config)" and "enumerates order2 (Aliases config)"
    and "strings_HasPrefix importPath ''.'' \<or> strings_HasPrefix importPath ''/'' \<or>
         (\<forall>a \<in> matchingAliases importPath config. \<forall>b \<in> matchingAliases importPath config. a = b)"
  shows "ResolveImportPath importPath config order1 projectDir currentDir =
         ResolveImportPath importPath config order2 projectDir currentDir"
proof (cases "strings_HasPrefix importPath ''.'' \<or> strings_HasPrefix importPath ''/''")
  case True
  then show ?thesis by (auto simp: ResolveImportPath_def)
next
  case False
  with assms(3) have one: "\<forall>a \<in> matchingAliases importPath config. \<forall>b \<in> matchingAliases importPath config. a = b"
    by blast
  let ?P = "\<lambda>a. a \<in> dom (Aliases config) \<and> strings_HasPrefix importPath a"
  have "set order1 = set order2" using assms(1,2) by (simp add: enumerates_def)
  moreover have "\<forall>x\<in>set order1. \<forall>y\<in>set order2. ?P x \<and> ?P y \<longrightarrow> x = y"
    using one by (auto simp: matchingAliases_def)
  ultimately have "find ?P order1 = find ?P order2" by (rule find_unique[rotated])
  then have "resolveAlias importPath config projectDir order1 = resolveAlias importPath config projectDir order2"
    by (simp add: resolveAlias_find)
  then show ?thesis by (simp add: ResolveImportPath_def)
qed


text \<open>
  Witness for C4: with the aliases \<^verbatim>\<open>@\<close> and \<^verbatim>\<open>lib\<close> only \<^verbatim>\<open>@\<close>
  prefix-matches \<^verbatim>\<open>@/ui/Button\<close>, and both orders of the loop agree.
\<close>

theorem ResolveImportPath_deterministic_witness:
  "enumerates [''@'', ''lib''] [''@'' \<mapsto> ''src'', ''lib'' \<mapsto> ''packages/lib'']
   \<and> enumerates [''lib'', ''@''] [''@'' \<mapsto> ''src'', ''lib'' \<mapsto> ''packages/lib'']
   \<and> matchingAliases ''@/ui/Button''
         \<lparr>BaseURL = [], Aliases = [''@'' \<mapsto> ''src'', ''lib'' \<mapsto> ''packages/lib'']\<rparr> = {''@''}
   \<and> ResolveImportPath ''@/ui/Button''
         \<lparr>BaseURL = [], Aliases = [''@'' \<mapsto> ''src'', ''lib'' \<mapsto> ''packages/lib'']\<rparr>
         [''@'', ''lib''] ''/proj'' ''/proj/src''
       = ResolveImportPath ''@/ui/Button''
         \<lparr>BaseURL = [], Aliases = [''@'' \<mapsto> ''src'', ''lib'' \<mapsto> ''packages/lib'']\<rparr>
         [''lib'', ''@''] ''/proj'' ''/proj/src''"
proof -
  let ?cfg = "\<lparr>BaseURL = [], Aliases = [''@'' \<mapsto> ''src'', ''lib'' \<mapsto> ''packages/lib'']\<rparr>"
  have e1: "enumerates [''@'', ''lib''] (Aliases ?cfg)"
    by (auto simp: enumerates_def)
  have e2: "enumerates [''lib'', ''@''] (Aliases ?cfg)"
    by (auto simp: enumerates_def)
  have m: "matchingAliases ''@/ui/Button'' ?cfg = {''@''}"
    by (auto simp: matchingAliases_def strings_HasPrefix_def split: if_splits)
  have u: "strings_HasPrefix ''@/ui/Button'' ''.'' \<or> strings_HasPrefix ''@/ui/Button'' ''/'' \<or>
         (\<forall>a \<in> matchingAliases ''@/ui/Button'' ?cfg. \<forall>b \<in> matchingAliases ''@/ui/Button'' ?cfg. a = b)"
    by (simp add: m)
  from ResolveImportPath_deterministic [OF e1 e2 u, of "''/proj''" "''/proj/src''"] e1 e2 m
  show ?thesis by simp
qed

text \<open>
  Counterexample to C4 as stated: with the aliases \<^verbatim>\<open>@\<close> and \<^verbatim>\<open>@ui\<close>, both of
  which prefix-match \<^verbatim>\<open>@ui/Button\<close>, the two orders in which the loop may visit
  the map give two different paths for the same inputs.
\<close>

theorem ResolveImportPath_order_counterexample:
  "enumerates [''@'', ''@ui''] [''@'' \<mapsto> ''src'', ''@ui'' \<mapsto> ''packages/ui/src'']
   \<and> enumerates [''@ui'', ''@''] [''@'' \<mapsto> ''src'', ''@ui'' \<mapsto> ''packages/ui/src'']
   \<and> ResolveImportPath ''@ui/Button''
         \<lparr>BaseURL = [], Aliases = [''@'' \<mapsto> ''src'', ''@ui'' \<mapsto> ''packages/ui/src'']\<rparr>
         [''@'', ''@ui''] ''/proj'' ''/proj/src'' = ''/proj/src/ui/Button''
   \<and> ResolveImportPath ''@ui/Button''
         \<lparr>BaseURL = [], Aliases = [''@'' \<mapsto> ''src'', ''@ui'' \<mapsto> ''packages/ui/src'']\<rparr>
         [''@ui'', ''@''] ''/proj'' ''/proj/src'' = ''/proj/packages/ui/src/Button''"
proof -
  have "enumerates [''@'', ''@ui''] [''@'' \<mapsto> ''src'', ''@ui'' \<mapsto> ''packages/ui/src'']"
    by (auto simp: enumerates_def)
  moreover have "enumerates [''@ui'', ''@''] [''@'' \<mapsto> ''src'', ''@ui'' \<mapsto> ''packages/ui/src'']"
    by (auto simp: enumerates_def)
  moreover have "ResolveImportPath ''@ui/Button''
         \<lparr>BaseURL = [], Aliases = [''@'' \<mapsto> ''src'', ''@ui'' \<mapsto> ''packages/ui/src'']\<rparr>
         [''@'', ''@ui''] ''/proj'' ''/proj/src'' = ''/proj/src/ui/Button''"
    by (simp add: ResolveImportPath_def strings_HasPrefix_def aliasTarget_def
        strings_TrimPrefix_def filepath_IsAbs_def filepath_Join_def filepath_Clean_def)
  moreover have "ResolveImportPath ''@ui/Button''
         \<lparr>BaseURL = [], Aliases = [''@'' \<mapsto> ''src'', ''@ui'' \<mapsto> ''packages/ui/src'']\<rparr>
         [''@ui'', ''@''] ''/proj'' ''/proj/src'' = ''/proj/packages/ui/src/Button''"
    by (simp add: ResolveImportPath_def strings_HasPrefix_def aliasTarget_def
        strings_TrimPrefix_def filepath_IsAbs_def filepath_Join_def filepath_Clean_def)
  ultimately show ?thesis by blast
qed

section \<open>Properties of the relationships\<close>

lemma withImportedBy_sel [simp]:
  "ID (withImportedBy xs n) = ID n" "Name (withImportedBy xs n) = Name n"
  "Path (withImportedBy xs n) = Path n" "Type (withImportedBy xs n) = Type n"
  "MultipleComp (withImportedBy xs n) = MultipleComp n"
  "Imports (withImportedBy xs n) = Imports n"
  "ImportedBy (withImportedBy xs n) = xs"
  "Children (withImportedBy xs n) = Children n"
  by (simp_all add: withImportedBy_def)

lemma withImportedBy_twice [simp]:
  "withImportedBy xs (withImportedBy ys n) = withImportedBy xs n"
  by (simp add: withImportedBy_def)

lemma addImportedBy_lookup:
  "addImportedBy nid importList m k =
     (case m k of
        None \<Rightarrow> None
      | Some n \<Rightarrow> Some (withImportedBy (ImportedBy n @ replicate (count_list importList k) nid) n))"
proof (induction importList arbitrary: m)
  case Nil
  show ?case by (cases "m k") (simp_all add: withImportedBy_def)
next
  case (Cons importPath importList)
  show ?case
    by (cases "m importPath"; cases "m k")
       (auto simp: Cons.IH replicate_append_same)
qed

lemma reverseEntries_addImportedBy:
  "reverseEntries (addImportedBy nid importList m) = reverseEntries m"
  by (auto simp: reverseEntries_def addImportedBy_lookup fun_eq_iff split: option.splits)

lemma relationshipsLoop_lookup:
  "relationshipsLoop order m k =
     (case m k of
        None \<Rightarrow> None
      | Some n \<Rightarrow>
          Some (withImportedBy (ImportedBy n @ concat (map (reverseEntries m k) order)) n))"
proof (induction order arbitrary: m)
  case Nil
  show ?case by (cases "m k") (simp_all add: withImportedBy_def)
next
  case (Cons nid order)
  show ?case
  proof (cases "m nid")
    case None
    then have "reverseEntries m k nid = []" by (simp add: reverseEntries_def)
    with None show ?thesis by (simp add: Cons.IH split: option.splits)
  next
    case (Some node)
    then have "reverseEntries m k nid = replicate (count_list (Imports node) k) nid"
      by (simp add: reverseEntries_def)
    with Some show ?thesis
      by (cases "m k")
         (simp_all add: Cons.IH reverseEntries_addImportedBy addImportedBy_lookup)
  qed
qed

lemma count_list_replicate:
  "count_list (replicate n y) x = (if x = y then n else 0)"
  by (induction n) auto

lemma count_list_concat_replicate:
  "distinct order \<Longrightarrow>
     count_list (concat (map (\<lambda>i. replicate (c i) i) order)) x =
       (if x \<in> set order then c x else 0)"
  by (induction order) (auto simp: count_list_replicate)

lemma reverseEntries_count:
  assumes "enumerates order m"
  shows "count_list (concat (map (reverseEntries m k) order)) x =
           (case m x of None \<Rightarrow> 0 | Some node \<Rightarrow> count_list (Imports node) k)"
proof -
  let ?c = "\<lambda>i. case m i of None \<Rightarrow> 0 | Some node \<Rightarrow> count_list (Imports node) k"
  have "reverseEntries m k = (\<lambda>i. replicate (?c i) i)"
    by (auto simp: reverseEntries_def fun_eq_iff split: option.splits)
  then have "count_list (concat (map (reverseEntries m k) order)) x =
               (if x \<in> set order then ?c x else 0)"
    using assms by (simp add: count_list_concat_replicate enumerates_def)
  also have "\<dots> = ?c x"
    using assms by (auto simp: enumerates_def dom_def split: option.splits)
  finally show ?thesis .
qed

text \<open>
  C6. \<^verbatim>\<open>buildRelationships\<close> runs on a registry whose nodes have empty
  \<^verbatim>\<open>ImportedBy\<close> lists (as \<^verbatim>\<open>parseFile\<close> builds them), in any order of the
  iteration over the map. It keeps the keys of the registry (an import that is no key
  gets no entry) and the \<^verbatim>\<open>Imports\<close> of every node; and for every key
  \<open>importPath\<close> and every identifier \<open>nid\<close>, \<open>nid\<close> occurs in the \<^verbatim>\<open>ImportedBy\<close>
  of the node under \<open>importPath\<close> as often as \<open>importPath\<close> occurs in the imports of
  the node registered under \<open>nid\<close>, and not at all when \<open>nid\<close> is no key.
\<close>

theorem buildRelationships_reverse_edges:
  assumes "enumerates order (NodesMap project)"
    and "\<forall>k n. NodesMap project k = Some n \<longrightarrow> ImportedBy n = []"
  shows "dom (NodesMap (buildRelationships order project)) = dom (NodesMap project)
       \<and> (\<forall>importPath importedNode. NodesMap project importPath = Some importedNode \<longrightarrow>
            (\<exists>importedNode'.
               NodesMap (buildRelationships order project) importPath = Some importedNode'
             \<and> Imports importedNode' = Imports importedNode
             \<and> (\<forall>nid. count_list (ImportedBy importedNode') nid =
                   (case NodesMap project nid of
                      None \<Rightarrow> 0
                    | Some node \<Rightarrow> count_list (Imports node) importPath))))"
proof (intro conjI allI impI)
  show "dom (NodesMap (buildRelationships order project)) = dom (NodesMap project)"
    by (auto simp: buildRelationships_def relationshipsLoop_lookup dom_def split: option.splits)
next
  fix importPath importedNode
  assume key: "NodesMap project importPath = Some importedNode"
  let ?n = "withImportedBy
              (ImportedBy importedNode @
               concat (map (reverseEntries (NodesMap project) importPath) order)) importedNode"
  have "NodesMap (buildRelationships order project) importPath = Some ?n"
    by (simp add: buildRelationships_def relationshipsLoop_lookup key)
  moreover have "Imports ?n = Imports importedNode" by simp
  moreover have "\<forall>nid. count_list (ImportedBy ?n) nid =
                   (case NodesMap project nid of
                      None \<Rightarrow> 0
                    | Some node \<Rightarrow> count_list (Imports node) importPath)"
    using assms(2) key by (simp add: reverseEntries_count [OF assms(1)])
  ultimately show "\<exists>importedNode'.
               NodesMap (buildRelationships order project) importPath = Some importedNode'
             \<and> Imports importedNode' = Imports importedNode
             \<and> (\<forall>nid. count_list (ImportedBy importedNode') nid =
                   (case NodesMap project nid of
                      None \<Rightarrow> 0
                    | Some node \<Rightarrow> count_list (Imports node) importPath))"
    by blast
qed


text \<open>
  Witness for C6: \<^verbatim>\<open>a.js\<close> imports \<^verbatim>\<open>b.js\<close> twice, so \<^verbatim>\<open>a.js\<close> stands
  twice in the reverse list of \<^verbatim>\<open>b.js\<close>; the import \<^verbatim>\<open>lib/missing\<close> is no key
  before or after.
\<close>

theorem buildRelationships_reverse_edges_witness:
  "enumerates [''a.js'', ''b.js''] (NodesMap exampleImports)
   \<and> dom (NodesMap (buildRelationships [''a.js'', ''b.js''] exampleImports)) = {''a.js'', ''b.js''}
   \<and> (\<exists>n. NodesMap (buildRelationships [''a.js'', ''b.js''] exampleImports) ''b.js'' = Some n
          \<and> Imports n = [''a.js'']
          \<and> count_list (ImportedBy n) ''a.js'' = 2
          \<and> count_list (ImportedBy n) ''b.js'' = 0)"
proof -
  have e: "enumerates [''a.js'', ''b.js''] (NodesMap exampleImports)"
    by (auto simp: enumerates_def exampleImports_def)
  have h: "\<forall>k n. NodesMap exampleImports k = Some n \<longrightarrow> ImportedBy n = []"
    by (auto simp: exampleImports_def utilNode_def split: if_splits)
  have b: "NodesMap exampleImports ''b.js'' = Some (utilNode ''b.js'' ''b'' [''a.js''])"
    by (simp add: exampleImports_def)
  note edges = buildRelationships_reverse_edges [OF e h]
  from edges have d: "dom (NodesMap (buildRelationships [''a.js'', ''b.js''] exampleImports))
                      = {''a.js'', ''b.js''}"
    by (auto simp: exampleImports_def)
  from edges b obtain n where
    n: "NodesMap (buildRelationships [''a.js'', ''b.js''] exampleImports) ''b.js'' = Some n"
       "Imports n = Imports (utilNode ''b.js'' ''b'' [''a.js''])"
       "\<forall>nid. count_list (ImportedBy n) nid =
          (case NodesMap exampleImports nid of
             None \<Rightarrow> 0
           | Some node \<Rightarrow> count_list (Imports node) ''b.js'')"
    by blast
  from n(3) have "count_list (ImportedBy n) ''a.js'' = 2" "count_list (ImportedBy n) ''b.js'' = 0"
    by (simp_all add: exampleImports_def utilNode_def)
  with e d n(1,2) show ?thesis by (simp add: utilNode_def)
qed

section \<open>Properties of the directory tree\<close>

text \<open>
  C5 (the code at the failing inputs). For the registry of \<^verbatim>\<open>src/a.js\<close> and
  \<^verbatim>\<open>srcfoo/b.js\<close> the key \<^verbatim>\<open>srcfoo\<close> passes the test for a direct subdirectory of
  \<^verbatim>\<open>src\<close>, and in either order of the iteration a directory node \<^verbatim>\<open>srcfoo\<close> hangs
  under the directory node \<^verbatim>\<open>src\<close> (and once more under the root). For the registry
  of \<^verbatim>\<open>index.js\<close> alone the root's only child is a directory node \<^verbatim>\<open>.\<close> that
  holds the file.
\<close>

theorem buildTree_prefix_sibling_and_root_file:
  "isDirectSubdir ''srcfoo'' ''src''
   \<and> Root (buildTree [''src/a.js'', ''srcfoo/b.js''] [''src'', ''srcfoo''] exampleTwoDirs)
       = withChildren
           [withChildren
              [utilNode ''src/a.js'' ''a'' [],
               withChildren [utilNode ''srcfoo/b.js'' ''b'' []] (subdirNode ''srcfoo'')]
              (subdirNode ''src''),
            withChildren [utilNode ''srcfoo/b.js'' ''b'' []] (subdirNode ''srcfoo'')]
           exampleRoot
   \<and> Root (buildTree [''src/a.js'', ''srcfoo/b.js''] [''srcfoo'', ''src''] exampleTwoDirs)
       = withChildren
           [withChildren [utilNode ''srcfoo/b.js'' ''b'' []] (subdirNode ''srcfoo''),
            withChildren
              [utilNode ''src/a.js'' ''a'' [],
               withChildren [utilNode ''srcfoo/b.js'' ''b'' []] (subdirNode ''srcfoo'')]
              (subdirNode ''src'')]
           exampleRoot
   \<and> filepath_Dir ''index.js'' = ''.''
   \<and> Root (buildTree [''index.js''] [''.''] exampleRootIndex)
       = withChildren [withChildren [utilNode ''index.js'' ''index'' []] (subdirNode ''.'')]
           exampleRoot"
  by code_simp

section \<open>Properties of the configuration loader\<close>

lemma splitSep_not_Nil: "splitSep p \<noteq> []"
  by (induction p) (auto split: list.splits)

lemma splitSep_plain: "CHR ''/'' \<notin> set name \<Longrightarrow> splitSep name = [name]"
  by (induction name) (auto split: list.splits)

lemma splitSep_snoc:
  "CHR ''/'' \<notin> set name \<Longrightarrow> splitSep (p @ CHR ''/'' # name) = splitSep p @ [name]"
proof (induction p)
  case Nil
  then show ?case by (simp add: splitSep_plain)
next
  case (Cons c p)
  then show ?case
    using splitSep_not_Nil [of p] by (cases "splitSep p") auto
qed

lemma cleanElems_snoc:
  "e \<noteq> [] \<Longrightarrow> e \<noteq> ''.'' \<Longrightarrow> e \<noteq> ''..'' \<Longrightarrow>
     cleanElems rooted acc (es @ [e]) = cleanElems rooted acc es @ [e]"
  by (induction rooted acc es rule: cleanElems.induct) (auto split: list.splits)

lemma joinSep_snoc: "joinSep (ys @ [x]) = (if ys = [] then x else joinSep ys @ ''/'' @ x)"
  by (induction ys rule: joinSep.induct) auto

lemma Join_plainName:
  assumes "plainName name"
  shows "\<exists>pre. filepath_Join [rootDir, name] = pre @ name \<and> (pre = [] \<or> last pre = CHR ''/'')"
proof (cases "rootDir = []")
  case True
  from assms have "\<not> strings_HasPrefix name ''/''"
    by (cases name) (auto simp: strings_HasPrefix_def plainName_def)
  with assms True have "filepath_Join [rootDir, name] = name"
    by (simp add: filepath_Join_def filepath_Clean_def splitSep_plain plainName_def)
  then show ?thesis by simp
next
  case False
  let ?r = "strings_HasPrefix (rootDir @ CHR ''/'' # name) ''/''"
  let ?ys = "cleanElems ?r [] (splitSep rootDir)"
  let ?pre = "(if ?r then ''/'' else []) @ (if ?ys = [] then [] else joinSep ?ys @ ''/'')"
  from False have j: "filepath_Join [rootDir, name] = filepath_Clean (rootDir @ CHR ''/'' # name)"
    by (simp add: filepath_Join_def)
  have s: "splitSep (rootDir @ CHR ''/'' # name) = splitSep rootDir @ [name]"
    using assms by (simp add: splitSep_snoc plainName_def)
  have c: "cleanElems ?r [] (splitSep rootDir @ [name]) = ?ys @ [name]"
    using assms by (intro cleanElems_snoc) (auto simp: plainName_def)
  have "filepath_Clean (rootDir @ CHR ''/'' # name) = ?pre @ name"
    using assms unfolding filepath_Clean_def Let_def s c joinSep_snoc
    by (auto simp: plainName_def)
  moreover have "?pre = [] \<or> last ?pre = CHR ''/''" by auto
  ultimately show ?thesis using j by metis
qed


lemma suffix_same: "strings_HasSuffix (pre @ name) name"
  by (simp add: strings_HasSuffix_def)

lemma suffix_other:
  assumes "pre = [] \<or> last pre = CHR ''/''"
    and "length name \<le> length other" and "length other \<le> Suc (length name)"
    and "name \<noteq> other" and "CHR ''/'' \<notin> set other"
  shows "\<not> strings_HasSuffix (pre @ name) other"
proof
  assume h: "strings_HasSuffix (pre @ name) other"
  then have len: "length other \<le> length pre + length name"
    and d: "drop (length pre + length name - length other) (pre @ name) = other"
    by (simp_all add: strings_HasSuffix_def)
  show False
  proof (cases "length other = length name")
    case True
    with d have "name = other" by simp
    with assms(4) show False by simp
  next
    case False
    with assms(2,3) have eq: "length other = Suc (length name)" by simp
    with len have ne: "pre \<noteq> []" by auto
    with assms(1) have l: "last pre = CHR ''/''" by simp
    from ne have "pre = butlast pre @ [last pre]" by simp
    then have "drop (length pre - 1) (pre @ name) = last pre # name"
      by (metis append_Cons append_Nil append_assoc append_eq_conv_conj length_butlast)
    moreover from eq d have "drop (length pre - 1) (pre @ name) = other" by simp
    ultimately have "other = last pre # name" by simp
    with l assms(5) show False by simp
  qed
qed

lemma Ext_candidates:
  "filepath_Ext ''jsconfig.json'' = ''.json''" "filepath_Ext ''tsconfig.json'' = ''.json''"
  "filepath_Ext ''webpack.config.js'' = ''.js''" "filepath_Ext ''craco.config.js'' = ''.js''"
  "filepath_Ext ''.babelrc'' = ''.babelrc''" "filepath_Ext ''babel.config.js'' = ''.js''"
  "filepath_Ext ''package.json'' = ''.json''"
  by (simp_all add: filepath_Ext_def lastElem_def)

lemma parseJSONConfig_unavailable:
  "unavailable file \<Longrightarrow> parseJSONConfig configPath file config = (Some ReadFileError, config)"
  by (auto simp: parseJSONConfig_def unavailable_def)

lemma parseJSONConfig_jsconfig:
  "asJSConfig data = Some jsConfig \<Longrightarrow>
     parseJSONConfig (filepath_Join [rootDir, ''jsconfig.json'']) (Readable data) config
       = (None, applyJSConfig jsConfig config)"
proof -
  assume a: "asJSConfig data = Some jsConfig"
  have "plainName ''jsconfig.json''" by (simp add: plainName_def)
  from Join_plainName [OF this, of rootDir] obtain pre where
    "filepath_Join [rootDir, ''jsconfig.json''] = pre @ ''jsconfig.json''" by blast
  with a show ?thesis
    using suffix_same [of pre "''jsconfig.json''"] by (simp add: parseJSONConfig_def)
qed

lemma parseJSONConfig_tsconfig:
  "asJSConfig data = Some jsConfig \<Longrightarrow>
     parseJSONConfig (filepath_Join [rootDir, ''tsconfig.json'']) (Readable data) config
       = (None, applyJSConfig jsConfig config)"
proof -
  assume a: "asJSConfig data = Some jsConfig"
  have "plainName ''tsconfig.json''" by (simp add: plainName_def)
  from Join_plainName [OF this, of rootDir] obtain pre where
    "filepath_Join [rootDir, ''tsconfig.json''] = pre @ ''tsconfig.json''" by blast
  with a show ?thesis
    using suffix_same [of pre "''tsconfig.json''"] by (simp add: parseJSONConfig_def)
qed

lemma parseJSONConfig_package:
  "asPackageJSON data = Some packageJSON \<Longrightarrow>
     parseJSONConfig (filepath_Join [rootDir, ''package.json'']) (Readable data) config
       = (None, applyPackageJSON packageJSON config)"
proof -
  assume a: "asPackageJSON data = Some packageJSON"
  have "plainName ''package.json''" by (simp add: plainName_def)
  from Join_plainName [OF this, of rootDir] obtain pre where
    pre: "filepath_Join [rootDir, ''package.json''] = pre @ ''package.json''"
      "pre = [] \<or> last pre = CHR ''/''" by blast
  have "\<not> strings_HasSuffix (pre @ ''package.json'') ''jsconfig.json''"
    by (rule suffix_other [OF pre(2)]) simp_all
  moreover have "\<not> strings_HasSuffix (pre @ ''package.json'') ''tsconfig.json''"
    by (rule suffix_other [OF pre(2)]) simp_all
  ultimately show ?thesis
    using a pre(1) suffix_same [of pre "''package.json''"]
    by (simp add: parseJSONConfig_def parsePackageJSON_def)
qed

lemma searchConfig_js:
  "filepath_Ext configFile = ''.js'' \<Longrightarrow>
     searchConfig rootDir files (configFile # candidates) config =
       searchConfig rootDir files candidates (parseJSConfig (files configFile) config)"
  by (simp add: parseJSConfig_def)

lemma searchConfig_other:
  "filepath_Ext configFile \<noteq> ''.json'' \<Longrightarrow> filepath_Ext configFile \<noteq> ''.js'' \<Longrightarrow>
     searchConfig rootDir files (configFile # candidates) config =
       searchConfig rootDir files candidates config"
  by simp

lemma searchConfig_json_unavailable:
  "filepath_Ext configFile = ''.json'' \<Longrightarrow> unavailable (files configFile) \<Longrightarrow>
     searchConfig rootDir files (configFile # candidates) config =
       searchConfig rootDir files candidates config"
  by (simp add: parseJSONConfig_unavailable)

lemma searchConfig_json_readable:
  "filepath_Ext configFile = ''.json'' \<Longrightarrow> files configFile = Readable data \<Longrightarrow>
     searchConfig rootDir files (configFile # candidates) config =
       snd (parseJSONConfig (filepath_Join [rootDir, configFile]) (Readable data) config)"
  by (simp add: parseJSONConfig_def split: option.splits)

text \<open>
  C7 (as the code has it). The candidates are tried in the order of \<open>configFiles\<close>.
  A \<^verbatim>\<open>.js\<close> candidate that exists is scanned, what is found is stored in the
  configuration, and the search goes on; \<^verbatim>\<open>.babelrc\<close> is never read. A
  \<^verbatim>\<open>.json\<close> candidate that is missing or cannot be read does not end the search.
  The first \<^verbatim>\<open>.json\<close> candidate that can be read and parses, every \<^verbatim>\<open>.json\<close>
  candidate before it being missing or unreadable, ends the search: what is returned
  is the configuration accumulated from the \<^verbatim>\<open>.js\<close> candidates before it, updated
  with its settings; no later candidate and no \<^verbatim>\<open>src\<close> directory has a part in
  the result.
\<close>

theorem ReadProjectConfig_first_parsed_json:
  "(files ''jsconfig.json'' = Readable data \<and> asJSConfig data = Some jsConfig \<longrightarrow>
      ReadProjectConfig rootDir files = applyJSConfig jsConfig defaultConfig)
   \<and> (unavailable (files ''jsconfig.json'') \<and>
       files ''tsconfig.json'' = Readable data \<and> asJSConfig data = Some jsConfig \<longrightarrow>
      ReadProjectConfig rootDir files = applyJSConfig jsConfig defaultConfig)
   \<and> (unavailable (files ''jsconfig.json'') \<and> unavailable (files ''tsconfig.json'') \<and>
       files ''package.json'' = Readable data \<and> asPackageJSON data = Some packageJSON \<longrightarrow>
      ReadProjectConfig rootDir files =
        applyPackageJSON packageJSON
          (parseJSConfig (files ''babel.config.js'')
            (parseJSConfig (files ''craco.config.js'')
              (parseJSConfig (files ''webpack.config.js'') defaultConfig))))"
proof (intro conjI impI)
  assume "files ''jsconfig.json'' = Readable data \<and> asJSConfig data = Some jsConfig"
  then show "ReadProjectConfig rootDir files = applyJSConfig jsConfig defaultConfig"
    by (simp add: ReadProjectConfig_def configFiles_def Ext_candidates parseJSONConfig_jsconfig
        searchConfig_json_readable del: searchConfig.simps)
next
  assume "unavailable (files ''jsconfig.json'') \<and>
       files ''tsconfig.json'' = Readable data \<and> asJSConfig data = Some jsConfig"
  then show "ReadProjectConfig rootDir files = applyJSConfig jsConfig defaultConfig"
    by (simp add: ReadProjectConfig_def configFiles_def Ext_candidates parseJSONConfig_tsconfig
        searchConfig_json_unavailable searchConfig_json_readable del: searchConfig.simps)
next
  assume "unavailable (files ''jsconfig.json'') \<and> unavailable (files ''tsconfig.json'') \<and>
       files ''package.json'' = Readable data \<and> asPackageJSON data = Some packageJSON"
  then show "ReadProjectConfig rootDir files =
        applyPackageJSON packageJSON
          (parseJSConfig (files ''babel.config.js'')
            (parseJSConfig (files ''craco.config.js'')
              (parseJSConfig (files ''webpack.config.js'') defaultConfig)))"
    by (simp add: ReadProjectConfig_def configFiles_def Ext_candidates parseJSONConfig_package
        searchConfig_json_unavailable searchConfig_json_readable searchConfig_js
        searchConfig_other del: searchConfig.simps)
qed


text \<open>
  Witness for C7: one project root for each of the three cases. With
  \<^verbatim>\<open>jsconfig.json\<close> and \<^verbatim>\<open>tsconfig.json\<close> both parsing the first wins; an
  unreadable \<^verbatim>\<open>jsconfig.json\<close> passes the turn to \<^verbatim>\<open>tsconfig.json\<close>, and
  \<^verbatim>\<open>package.json\<close> is not consulted; with \<^verbatim>\<open>package.json\<close> the winner, the
  findings of \<^verbatim>\<open>webpack.config.js\<close> are part of the result.
\<close>

theorem ReadProjectConfig_first_parsed_json_witness:
  "BaseURL (ReadProjectConfig ''/proj'' filesJsconfigFirst) = ''app''
   \<and> Aliases (ReadProjectConfig ''/proj'' filesJsconfigFirst) ''@'' = Some ''src''
   \<and> unavailable (filesTsconfigFirst ''jsconfig.json'')
   \<and> BaseURL (ReadProjectConfig ''/proj'' filesTsconfigFirst) = ''app''
   \<and> Aliases (ReadProjectConfig ''/proj'' filesTsconfigFirst) ''@'' = Some ''src''
   \<and> Aliases (ReadProjectConfig ''/proj'' filesTsconfigFirst) ''components'' = None
   \<and> unavailable (filesWebpackAndPackage ''jsconfig.json'')
   \<and> unavailable (filesWebpackAndPackage ''tsconfig.json'')
   \<and> BaseURL (ReadProjectConfig ''/proj'' filesWebpackAndPackage) = ''app''
   \<and> Aliases (ReadProjectConfig ''/proj'' filesWebpackAndPackage) ''ui'' = Some ''lib/ui''
   \<and> Aliases (ReadProjectConfig ''/proj'' filesWebpackAndPackage) ''@'' = Some ''src''
   \<and> Aliases (ReadProjectConfig ''/proj'' filesWebpackAndPackage) ''components''
        = Some ''src/components''"
proof -
  let ?js = "noViews\<lparr>asJSConfig := Some exampleJSConfig\<rparr>"
  let ?pk = "noViews\<lparr>asPackageJSON := Some examplePackageJSON\<rparr>"
  have u1: "unavailable (filesTsconfigFirst ''jsconfig.json'')"
    by (simp add: filesTsconfigFirst_def unavailable_def)
  have u2: "unavailable (filesWebpackAndPackage ''jsconfig.json'')"
    "unavailable (filesWebpackAndPackage ''tsconfig.json'')"
    by (simp_all add: filesWebpackAndPackage_def unavailable_def)
  have "filesJsconfigFirst ''jsconfig.json'' = Readable ?js \<and> asJSConfig ?js = Some exampleJSConfig"
    by (simp add: filesJsconfigFirst_def)
  with ReadProjectConfig_first_parsed_json
         [of filesJsconfigFirst ?js exampleJSConfig "''/proj''"]
  have r1: "ReadProjectConfig ''/proj'' filesJsconfigFirst = applyJSConfig exampleJSConfig defaultConfig"
    by blast
  have "filesTsconfigFirst ''tsconfig.json'' = Readable ?js \<and> asJSConfig ?js = Some exampleJSConfig"
    by (simp add: filesTsconfigFirst_def)
  with u1 ReadProjectConfig_first_parsed_json
         [of filesTsconfigFirst ?js exampleJSConfig "''/proj''"]
  have r2: "ReadProjectConfig ''/proj'' filesTsconfigFirst = applyJSConfig exampleJSConfig defaultConfig"
    by blast
  have "filesWebpackAndPackage ''package.json'' = Readable ?pk
          \<and> asPackageJSON ?pk = Some examplePackageJSON"
    by (simp add: filesWebpackAndPackage_def)
  with u2 ReadProjectConfig_first_parsed_json
         [of filesWebpackAndPackage ?pk _ "''/proj''" examplePackageJSON]
  have r3: "ReadProjectConfig ''/proj'' filesWebpackAndPackage =
        applyPackageJSON examplePackageJSON
          (parseJSConfig (filesWebpackAndPackage ''babel.config.js'')
            (parseJSConfig (filesWebpackAndPackage ''craco.config.js'')
              (parseJSConfig (filesWebpackAndPackage ''webpack.config.js'') defaultConfig)))"
    by blast
  have e1: "BaseURL (applyJSConfig exampleJSConfig defaultConfig) = ''app''"
    "Aliases (applyJSConfig exampleJSConfig defaultConfig) ''@'' = Some ''src''"
    "Aliases (applyJSConfig exampleJSConfig defaultConfig) ''components'' = None"
    by (simp_all add: applyJSConfig_def exampleJSConfig_def defaultConfig_def
        strings_TrimSuffix_def strings_HasSuffix_def)
  let ?acc = "parseJSConfig (filesWebpackAndPackage ''babel.config.js'')
            (parseJSConfig (filesWebpackAndPackage ''craco.config.js'')
              (parseJSConfig (filesWebpackAndPackage ''webpack.config.js'') defaultConfig))"
  have acc: "?acc = \<lparr>BaseURL = ''app'', Aliases = [''ui'' \<mapsto> ''lib/ui'']\<rparr>"
    by (simp add: filesWebpackAndPackage_def parseJSConfig_def noViews_def exampleWebpack_def
        setBaseURL_def List.map_filter_simps defaultConfig_def)
  have e3: "BaseURL (applyPackageJSON examplePackageJSON ?acc) = ''app''"
    "Aliases (applyPackageJSON examplePackageJSON ?acc) ''ui'' = Some ''lib/ui''"
    "Aliases (applyPackageJSON examplePackageJSON ?acc) ''@'' = Some ''src''"
    "Aliases (applyPackageJSON examplePackageJSON ?acc) ''components'' = Some ''src/components''"
    unfolding acc
    by (simp_all add: applyPackageJSON_def examplePackageJSON_def strings_TrimSuffix_def
        strings_HasSuffix_def strings_TrimPrefix_def strings_HasPrefix_def Let_def)
  from u1 u2 e1 e3 show ?thesis unfolding r1 r2 r3 by simp
qed

text \<open>
  Counterexample to C7 as stated. First the parsed \<^verbatim>\<open>.json\<close> file alone does not
  determine what is returned: the two roots have the same \<^verbatim>\<open>package.json\<close>, their
  first (and only) \<^verbatim>\<open>.json\<close> candidate that parses, and the results differ, because
  one of them has a \<^verbatim>\<open>webpack.config.js\<close>. Second, a \<^verbatim>\<open>jsconfig.json\<close> that can
  be read and fails to parse ends the search: \<^verbatim>\<open>tsconfig.json\<close>, which parses and
  sets the base URL \<^verbatim>\<open>app\<close> and the alias \<^verbatim>\<open>@\<close>, is not consulted, and the
  defaults are returned.
\<close>

theorem ReadProjectConfig_counterexample:
  "filesWebpackAndPackage ''package.json'' = filesPackageOnly ''package.json''
   \<and> BaseURL (ReadProjectConfig ''/proj'' filesWebpackAndPackage) = ''app''
   \<and> BaseURL (ReadProjectConfig ''/proj'' filesPackageOnly) = []
   \<and> filesMalformedJsconfig ''tsconfig.json''
        = Readable (noViews\<lparr>asJSConfig := Some exampleJSConfig\<rparr>)
   \<and> BaseURL (applyJSConfig exampleJSConfig defaultConfig) = ''app''
   \<and> BaseURL (ReadProjectConfig ''/proj'' filesMalformedJsconfig) = []
   \<and> Aliases (ReadProjectConfig ''/proj'' filesMalformedJsconfig) ''@'' = None"
proof -
  have "filesWebpackAndPackage ''package.json'' = filesPackageOnly ''package.json''"
    by (simp add: filesWebpackAndPackage_def filesPackageOnly_def)
  moreover have "BaseURL (ReadProjectConfig ''/proj'' filesWebpackAndPackage) = ''app''"
    by code_simp
  moreover have "BaseURL (ReadProjectConfig ''/proj'' filesPackageOnly) = []"
    by code_simp
  moreover have "filesMalformedJsconfig ''tsconfig.json''
        = Readable (noViews\<lparr>asJSConfig := Some exampleJSConfig\<rparr>)"
    by (simp add: filesMalformedJsconfig_def)
  moreover have "BaseURL (applyJSConfig exampleJSConfig defaultConfig) = ''app''"
    by code_simp
  moreover have "BaseURL (ReadProjectConfig ''/proj'' filesMalformedJsconfig) = []"
    by code_simp
  moreover have "Aliases (ReadProjectConfig ''/proj'' filesMalformedJsconfig) ''@'' = None"
    by code_simp
  ultimately show ?thesis by blast
qed

section \<open>Properties of the scan\<close>

lemma walk_invariant:
  "(\<And>path rel entry project.
      I project \<Longrightarrow> I (snd (walkFn extractImports rootDir path rel entry project))) \<Longrightarrow>
   I project \<Longrightarrow> I (snd (walk extractImports rootDir path rel entry project))"
  "(\<And>path rel entry project.
      I project \<Longrightarrow> I (snd (walkFn extractImports rootDir path rel entry project))) \<Longrightarrow>
   I project \<Longrightarrow> I (snd (walkEntries extractImports rootDir path rel entries project))"
proof (induction extractImports rootDir path rel entry project
         and extractImports rootDir path rel entries project
       rule: walk_walkEntries.induct)
  case (1 extractImports rootDir path rel name entries project)
  note step = "1.prems"(1)
  from step [OF "1.prems"(2), of path rel "Directory name entries"]
  have i: "I (snd (walkFn extractImports rootDir path rel (Directory name entries) project))" .
  show ?case
  proof (cases "walkFn extractImports rootDir path rel (Directory name entries) project")
    case (Pair result project')
    with i have "I project'" by simp
    with Pair "1.IH" step show ?thesis
      by (cases result) auto
  qed
next
  case (6 extractImports rootDir path rel entry entries project)
  note step = "6.prems"(1)
  let ?w = "walk extractImports rootDir (filepath_Join [path, entryName entry])
             (rel @ [entryName entry]) entry project"
  show ?case
  proof (cases ?w)
    case (Pair result project')
    with "6.IH"(1) "6.prems" have i: "I project'" by simp
    show ?thesis
    proof (cases result)
      case Continue
      with Pair i "6.IH"(2) step show ?thesis
        by auto
    next
      case SkipDir
      with Pair i "6.IH"(3) step show ?thesis
        by auto
    next
      case (Failed err)
      with Pair i show ?thesis by simp
    qed
  qed
qed simp_all

lemma parseFile_isRole:
  "parseFile extractImports content path relPath rootDir = Inr node \<Longrightarrow> isRole (Type node)"
proof -
  assume a: "parseFile extractImports content path relPath rootDir = Inr node"
  then obtain fileContent where "content = Some fileContent"
    by (cases content) (simp_all add: parseFile_def)
  with a have "Type node = fileType fileContent (filepath_Base path) relPath"
    by (simp add: parseFile_Type)
  then show ?thesis by (simp add: fileType_def isRole_def)
qed

lemma parseFile_ID:
  "parseFile extractImports content path relPath rootDir = Inr node \<Longrightarrow> ID node = relPath"
  by (auto simp: parseFile_def Let_def split: option.splits)

lemma parseFile_Name:
  "parseFile extractImports content path relPath rootDir = Inr node \<Longrightarrow>
     Name node = componentName path relPath rootDir"
  by (auto simp: parseFile_def Let_def split: option.splits)

lemma updateStats_consistent:
  "isRole (Type node) \<Longrightarrow> statsConsistent stats \<Longrightarrow> statsConsistent (updateStats node stats)"
  by (auto simp: updateStats_def statsConsistent_def isRole_def Let_def)

lemma walkFn_stats:
  "statsConsistent (Stats project) \<Longrightarrow>
     statsConsistent (Stats (snd (walkFn extractImports rootDir path rel entry project)))"
  by (cases entry)
     (auto simp: walkFn_def registerNode_def Let_def updateStats_consistent
           dest: parseFile_isRole split: sum.splits)

lemma walkFn_roles:
  "rolesRegistered project \<Longrightarrow>
     rolesRegistered (snd (walkFn extractImports rootDir path rel entry project))"
  by (cases entry)
     (auto simp: walkFn_def registerNode_def Let_def rolesRegistered_def
           dest: parseFile_isRole split: sum.splits)

lemma relationshipsLoop_Type:
  "relationshipsLoop order m k = Some node' \<Longrightarrow> \<exists>node. m k = Some node \<and> Type node' = Type node"
  by (auto simp: relationshipsLoop_lookup split: option.splits)

lemma ScanProject_Stats:
  "Stats (fst (ScanProject extractImports rootDir root relOrder nodeOrder dirOrder)) =
     Stats (snd (walk extractImports rootDir rootDir [] root (emptyProject rootDir)))"
  by (auto simp: ScanProject_def filepath_Walk_def buildTree_def buildRelationships_def Let_def
           split: prod.splits walkResult.splits option.splits)

lemma ScanProject_roles:
  "rolesRegistered (fst (ScanProject extractImports rootDir root relOrder nodeOrder dirOrder))"
proof -
  let ?w = "walk extractImports rootDir rootDir [] root (emptyProject rootDir)"
  have "rolesRegistered (emptyProject rootDir)"
    by (simp add: rolesRegistered_def emptyProject_def)
  then have r: "rolesRegistered (snd ?w)"
    by (rule walk_invariant(1) [rotated]) (rule walkFn_roles)
  then have "rolesRegistered (buildTree nodeOrder dirOrder (buildRelationships relOrder (snd ?w)))"
    by (auto simp: rolesRegistered_def buildTree_def buildRelationships_def Let_def
             dest!: relationshipsLoop_Type)
  with r show ?thesis
    by (auto simp: ScanProject_def filepath_Walk_def
             split: prod.splits walkResult.splits option.splits)
qed

text \<open>
  C9. Whatever the tree, the counters of the project \<^verbatim>\<open>ScanProject\<close> returns (with
  or without an error) satisfy: the total equals the sum of the component, state and
  utility counters, and the count of files with several components is at most the
  count of component files. Every registered node has exactly one of the three
  roles, which is why each registration adds one to the total and to one role
  counter.
\<close>

theorem ScanProject_stats_consistent:
  "TotalComponents (Stats (fst (ScanProject extractImports rootDir root relOrder nodeOrder dirOrder)))
     = ComponentFiles (Stats (fst (ScanProject extractImports rootDir root relOrder nodeOrder dirOrder)))
       + StateFiles (Stats (fst (ScanProject extractImports rootDir root relOrder nodeOrder dirOrder)))
       + UtilFiles (Stats (fst (ScanProject extractImports rootDir root relOrder nodeOrder dirOrder)))
   \<and> MultiCompFiles (Stats (fst (ScanProject extractImports rootDir root relOrder nodeOrder dirOrder)))
       \<le> ComponentFiles (Stats (fst (ScanProject extractImports rootDir root relOrder nodeOrder dirOrder)))
   \<and> (\<forall>k node.
         NodesMap (fst (ScanProject extractImports rootDir root relOrder nodeOrder dirOrder)) k = Some node
         \<longrightarrow> Type node = ''component'' \<or> Type node = ''state'' \<or> Type node = ''util'')"
proof -
  have "statsConsistent (Stats (emptyProject rootDir))"
    by (simp add: statsConsistent_def emptyProject_def)
  then have "statsConsistent
               (Stats (snd (walk extractImports rootDir rootDir [] root (emptyProject rootDir))))"
    by (rule walk_invariant(1) [where I = "\<lambda>p. statsConsistent (Stats p)", rotated])
       (rule walkFn_stats)
  then have "statsConsistent
               (Stats (fst (ScanProject extractImports rootDir root relOrder nodeOrder dirOrder)))"
    by (simp add: ScanProject_Stats)
  moreover note ScanProject_roles [of extractImports rootDir root relOrder nodeOrder dirOrder]
  ultimately show ?thesis
    by (simp add: statsConsistent_def rolesRegistered_def isRole_def)
qed

lemma visibleAt_not_dir:
  "visibleAt entry s (File name content) \<Longrightarrow> \<not> isDirectory entry \<Longrightarrow> s = []"
  by (cases entry; cases s) auto

lemma visiblePaths_File: "visiblePaths rel (File name content) = {relPathOf rel}"
  by (auto simp: visiblePaths_def dest: visibleAt_not_dir intro: exI [of _ "[]"])

lemma visiblePaths_child:
  "\<not> skipDirName name \<Longrightarrow> child \<in> set entries \<Longrightarrow>
     visiblePaths (rel @ [entryName child]) child \<subseteq> visiblePaths rel (Directory name entries)"
proof
  fix x
  assume ns: "\<not> skipDirName name" and c: "child \<in> set entries"
    and "x \<in> visiblePaths (rel @ [entryName child]) child"
  then obtain s n content where x: "x = relPathOf ((rel @ [entryName child]) @ s)"
    and v: "visibleAt child s (File n content)"
    by (auto simp: visiblePaths_def)
  from ns c v have "visibleAt (Directory name entries) (entryName child # s) (File n content)"
    by auto
  with x show "x \<in> visiblePaths rel (Directory name entries)"
    unfolding visiblePaths_def by (intro CollectI exI [of _ "entryName child # s"]) auto
qed

lemma framed_refl: "framed W project project"
  by (simp add: framed_def)

lemma framed_trans:
  "framed W1 p1 p2 \<Longrightarrow> framed W2 p2 p3 \<Longrightarrow> W1 \<subseteq> W \<Longrightarrow> W2 \<subseteq> W \<Longrightarrow> framed W p1 p3"
  unfolding framed_def by (intro conjI allI impI) (blast, metis subsetD)

lemma walkFn_framed:
  "framed (visiblePaths rel entry) project
     (snd (walkFn extractImports rootDir path rel entry project))"
  by (cases entry)
     (auto simp: walkFn_def registerNode_def Let_def framed_def visiblePaths_File
           dest: parseFile_ID split: sum.splits)

lemma walkFn_dir_unchanged:
  "snd (walkFn extractImports rootDir path rel (Directory name entries) project) = project"
  by (simp add: walkFn_def)

lemma walkFn_dir_Continue:
  "walkFn extractImports rootDir path rel (Directory name entries) project = (Continue, project')
     \<Longrightarrow> \<not> skipDirName name \<and> project' = project"
  by (auto simp: walkFn_def split: if_splits)

lemma walk_framed:
  "framed (visiblePaths rel entry) project
     (snd (walk extractImports rootDir path rel entry project))"
  "framed (\<Union>child \<in> set entries. visiblePaths (rel @ [entryName child]) child) project
     (snd (walkEntries extractImports rootDir path rel entries project))"
proof (induction extractImports rootDir path rel entry project
         and extractImports rootDir path rel entries project
       rule: walk_walkEntries.induct)
  case (1 extractImports rootDir path rel name entries project)
  show ?case
  proof (cases "walkFn extractImports rootDir path rel (Directory name entries) project")
    case (Pair result project')
    from Pair have eq: "project' = project"
      using walkFn_dir_unchanged [of extractImports rootDir path rel name entries project]
      by simp
    show ?thesis
    proof (cases result)
      case Continue
      with Pair have ns: "\<not> skipDirName name"
        using walkFn_dir_Continue by blast
      from "1.IH" [OF Pair [symmetric] Continue] eq
      have "framed (\<Union>child \<in> set entries. visiblePaths (rel @ [entryName child]) child) project
              (snd (walkEntries extractImports rootDir path rel entries project))"
        by simp
      moreover have "(\<Union>child \<in> set entries. visiblePaths (rel @ [entryName child]) child)
                       \<subseteq> visiblePaths rel (Directory name entries)"
        using visiblePaths_child [OF ns] by blast
      ultimately have "framed (visiblePaths rel (Directory name entries)) project
              (snd (walkEntries extractImports rootDir path rel entries project))"
        using framed_trans [OF framed_refl] by blast
      with Pair Continue eq show ?thesis by simp
    next
      case SkipDir
      with Pair eq show ?thesis by (simp add: framed_refl)
    next
      case (Failed err)
      with Pair eq show ?thesis by (simp add: framed_refl)
    qed
  qed
next
  case (2 extractImports rootDir path rel name content project)
  show ?case by (simp add: walkFn_framed)
next
  case (3 extractImports rootDir path rel name project)
  show ?case by (simp add: walkFn_framed)
next
  case (4 extractImports rootDir path rel name project)
  show ?case by (simp add: walkFn_framed)
next
  case (5 extractImports rootDir path rel project)
  show ?case by (simp add: framed_refl)
next
  case (6 extractImports rootDir path rel entry entries project)
  let ?w = "walk extractImports rootDir (filepath_Join [path, entryName entry])
             (rel @ [entryName entry]) entry project"
  let ?W = "\<Union>child \<in> set (entry # entries). visiblePaths (rel @ [entryName child]) child"
  let ?W' = "\<Union>child \<in> set entries. visiblePaths (rel @ [entryName child]) child"
  show ?case
  proof (cases ?w)
    case (Pair result project')
    with "6.IH"(1) have f1: "framed (visiblePaths (rel @ [entryName entry]) entry) project project'"
      by simp
    have s1: "visiblePaths (rel @ [entryName entry]) entry \<subseteq> ?W" by auto
    have s2: "?W' \<subseteq> ?W" by auto
    from f1 s1 have f1': "framed ?W project project'"
      using framed_trans [OF framed_refl] by blast
    have rest: "framed ?W project (snd (walkEntries extractImports rootDir path rel entries project'))"
      if "framed ?W' project' (snd (walkEntries extractImports rootDir path rel entries project'))"
      using framed_trans [OF f1 that s1 s2] .
    show ?thesis
    proof (cases result)
      case Continue
      from rest [OF "6.IH"(2) [OF Pair [symmetric] Continue]] Pair Continue
      show ?thesis by simp
    next
      case SkipDir
      show ?thesis
      proof (cases "isDirectory entry")
        case True
        from rest [OF "6.IH"(3) [OF Pair [symmetric] SkipDir True]] Pair SkipDir True
        show ?thesis by simp
      next
        case False
        with Pair SkipDir f1' show ?thesis by simp
      qed
    next
      case (Failed err)
      with Pair f1' show ?thesis by simp
    qed
  qed
qed

lemma splitSep_prefix:
  "CHR ''/'' \<notin> set x \<Longrightarrow> splitSep (x @ CHR ''/'' # r) = x # splitSep r"
  by (induction x) (auto split: list.splits)

lemma splitSep_joinSep:
  "s \<noteq> [] \<Longrightarrow> \<forall>x \<in> set s. CHR ''/'' \<notin> set x \<Longrightarrow> splitSep (joinSep s) = s"
proof (induction s rule: joinSep.induct)
  case 1
  then show ?case by simp
next
  case (2 x)
  then show ?case by (simp add: splitSep_plain)
next
  case (3 x y ys)
  then have "splitSep (joinSep (y # ys)) = y # ys" by simp
  moreover from "3.prems" have "CHR ''/'' \<notin> set x" by simp
  then have "splitSep (x @ CHR ''/'' # joinSep (y # ys)) = x # splitSep (joinSep (y # ys))"
    by (rule splitSep_prefix)
  ultimately show ?case by simp
qed

lemma joinSep_inj:
  assumes "s \<noteq> []" "s' \<noteq> []"
    and "\<forall>x \<in> set s. CHR ''/'' \<notin> set x" and "\<forall>x \<in> set s'. CHR ''/'' \<notin> set x"
    and "joinSep s = joinSep s'"
  shows "s = s'"
proof -
  have "splitSep (joinSep s) = s" using assms(1,3) by (rule splitSep_joinSep)
  moreover have "splitSep (joinSep s') = s'" using assms(2,4) by (rule splitSep_joinSep)
  ultimately show ?thesis using assms(5) by metis
qed

lemma joinSep_dot:
  assumes "t \<noteq> []" and "\<forall>x \<in> set t. plainName x"
  shows "joinSep t \<noteq> ''.''"
proof
  assume d: "joinSep t = ''.''"
  from assms have "\<forall>x \<in> set t. CHR ''/'' \<notin> set x" by (simp add: plainName_def)
  with assms(1) have "splitSep (joinSep t) = t" by (rule splitSep_joinSep)
  moreover have "splitSep ''.'' = [''.'']" by simp
  ultimately have "t = [''.'']" using d by metis
  with assms(2) show False by (simp add: plainName_def)
qed

lemma relPathOf_inj:
  assumes "\<forall>x \<in> set s. plainName x" and "\<forall>x \<in> set s'. plainName x"
    and "relPathOf s = relPathOf s'"
  shows "s = s'"
proof (cases "s = []")
  case True
  show ?thesis
  proof (cases "s' = []")
    case True
    with \<open>s = []\<close> show ?thesis by simp
  next
    case False
    with True assms(3) joinSep_dot [OF False assms(2)] show ?thesis
      by (simp add: relPathOf_def)
  qed
next
  case False
  show ?thesis
  proof (cases "s' = []")
    case True
    with False assms(3) joinSep_dot [OF False assms(1)] show ?thesis
      by (simp add: relPathOf_def)
  next
    case n: False
    from assms(1) have p: "\<forall>x \<in> set s. CHR ''/'' \<notin> set x" by (simp add: plainName_def)
    from assms(2) have p': "\<forall>x \<in> set s'. CHR ''/'' \<notin> set x" by (simp add: plainName_def)
    from False n assms(3) have "joinSep s = joinSep s'" by (simp add: relPathOf_def)
    with False n p p' show ?thesis by (rule joinSep_inj)
  qed
qed

lemma visibleAt_locatedAt: "visibleAt root s entry \<Longrightarrow> locatedAt root s entry"
  by (induction root s entry rule: visibleAt.induct) auto

lemma prunedAt_locatedAt: "prunedAt root s entry \<Longrightarrow> locatedAt root s entry"
  by (induction root s entry rule: prunedAt.induct) (auto split: if_splits)

lemma locatedAt_plain:
  "locatedAt root s entry \<Longrightarrow> plainTree root \<Longrightarrow> \<forall>x \<in> set s. plainName x"
  by (induction root s entry rule: locatedAt.induct) auto

lemma visibleAt_names:
  "visibleAt root s entry \<Longrightarrow>
     (s \<noteq> [] \<longrightarrow> \<not> skipDirName (entryName root)) \<and> (\<forall>x \<in> set (butlast s). \<not> skipDirName x)"
proof (induction root s entry rule: visibleAt.induct)
  case (2 name entries n rel entry)
  then obtain child where c: "child \<in> set entries" "entryName child = n"
    "visibleAt child rel entry" and ns: "\<not> skipDirName name"
    by auto
  from "2.IH" [OF c(1) c(3)] c(2) ns show ?case by (cases rel) auto
qed auto

lemma prunedAt_names:
  "prunedAt root s entry \<Longrightarrow>
     skipDirName (entryName root) \<or> (\<exists>x \<in> set (butlast s). skipDirName x)"
proof (induction root s entry rule: prunedAt.induct)
  case (2 name entries n rel entry)
  show ?case
  proof (cases "skipDirName name")
    case True
    then show ?thesis by simp
  next
    case False
    with "2.prems" obtain child where c: "child \<in> set entries" "entryName child = n"
      "prunedAt child rel entry"
      by auto
    from c(3) have "rel \<noteq> []" by (cases rel) auto
    with "2.IH" [OF c(1) False c(3)] c(2) show ?thesis by auto
  qed
qed auto

lemma pruned_not_visible:
  assumes "plainTree root" and "prunedAt root rel entry"
  shows "relPathOf rel \<notin> visiblePaths [] root"
proof
  assume "relPathOf rel \<in> visiblePaths [] root"
  then obtain s name content where eq: "relPathOf rel = relPathOf s"
    and v: "visibleAt root s (File name content)"
    by (auto simp: visiblePaths_def)
  from assms have "\<forall>x \<in> set rel. plainName x"
    using locatedAt_plain prunedAt_locatedAt by blast
  moreover from assms(1) v have "\<forall>x \<in> set s. plainName x"
    using locatedAt_plain visibleAt_locatedAt by blast
  ultimately have "rel = s" using eq by (rule relPathOf_inj)
  moreover from assms(2) have "rel \<noteq> []" by (cases rel) auto
  ultimately show False
    using visibleAt_names [OF v] prunedAt_names [OF assms(2)] by blast
qed

lemma parseFile_Path:
  "parseFile extractImports content path relPath rootDir = Inr node \<Longrightarrow> Path node = relPath"
  by (auto simp: parseFile_def Let_def split: option.splits)

lemma walkFn_keysAreIDs:
  "keysAreIDs project \<Longrightarrow>
     keysAreIDs (snd (walkFn extractImports rootDir path rel entry project))"
  by (cases entry)
     (auto simp: walkFn_def registerNode_def Let_def keysAreIDs_def parseFile_ID parseFile_Path
           split: sum.splits)

lemma ScanProject_Files:
  "Files (fst (ScanProject extractImports rootDir root relOrder nodeOrder dirOrder)) =
     Files (snd (walk extractImports rootDir rootDir [] root (emptyProject rootDir)))"
  by (auto simp: ScanProject_def filepath_Walk_def buildTree_def buildRelationships_def Let_def
           split: prod.splits walkResult.splits option.splits)

lemma ScanProject_NodesMap:
  "NodesMap (fst (ScanProject extractImports rootDir root relOrder nodeOrder dirOrder)) k =
     (let m = NodesMap (snd (walk extractImports rootDir rootDir [] root (emptyProject rootDir)))
      in case snd (ScanProject extractImports rootDir root relOrder nodeOrder dirOrder) of
           Some err \<Rightarrow> m k
         | None \<Rightarrow> relationshipsLoop relOrder m k)"
  by (auto simp: ScanProject_def filepath_Walk_def buildTree_def buildRelationships_def Let_def
           split: prod.splits walkResult.splits option.splits)

lemma ScanProject_NodesMap_None:
  "NodesMap (snd (walk extractImports rootDir rootDir [] root (emptyProject rootDir))) k = None
     \<Longrightarrow> NodesMap (fst (ScanProject extractImports rootDir root relOrder nodeOrder dirOrder)) k = None"
  by (simp add: ScanProject_NodesMap relationshipsLoop_lookup Let_def split: option.splits)

lemma ScanProject_keysAreIDs:
  "keysAreIDs (fst (ScanProject extractImports rootDir root relOrder nodeOrder dirOrder))"
proof -
  let ?w = "walk extractImports rootDir rootDir [] root (emptyProject rootDir)"
  have "keysAreIDs (emptyProject rootDir)"
    by (simp add: keysAreIDs_def emptyProject_def)
  then have "keysAreIDs (snd ?w)"
    by (rule walk_invariant(1) [rotated]) (rule walkFn_keysAreIDs)
  then show ?thesis
    unfolding keysAreIDs_def ScanProject_NodesMap Let_def
    by (auto simp: relationshipsLoop_lookup split: option.splits)
qed

text \<open>
  C8. In a tree whose entries have the names of a directory listing, a file that lies
  below a directory named \<^verbatim>\<open>node_modules\<close>, \<^verbatim>\<open>build\<close>, \<^verbatim>\<open>dist\<close> or with a
  leading dot, at any depth, is not in the file list of the project
  \<^verbatim>\<open>ScanProject\<close> returns, is no key of its registry, and no registered node has
  its path as identifier or path.
\<close>

theorem ScanProject_prunes:
  assumes "plainTree root" and "prunedAt root rel (File name content)"
  shows "relPathOf rel \<notin> set (Files (fst (ScanProject extractImports rootDir root relOrder nodeOrder dirOrder)))
       \<and> NodesMap (fst (ScanProject extractImports rootDir root relOrder nodeOrder dirOrder))
            (relPathOf rel) = None
       \<and> (\<forall>k node.
            NodesMap (fst (ScanProject extractImports rootDir root relOrder nodeOrder dirOrder)) k
              = Some node
            \<longrightarrow> ID node \<noteq> relPathOf rel \<and> Path node \<noteq> relPathOf rel)"
proof -
  let ?p = "fst (ScanProject extractImports rootDir root relOrder nodeOrder dirOrder)"
  let ?w = "snd (walk extractImports rootDir rootDir [] root (emptyProject rootDir))"
  have f: "framed (visiblePaths [] root) (emptyProject rootDir) ?w"
    by (rule walk_framed(1))
  have out: "relPathOf rel \<notin> visiblePaths [] root"
    using assms by (rule pruned_not_visible)
  from f out have "relPathOf rel \<notin> set (Files ?w)"
    by (auto simp: framed_def emptyProject_def)
  then have files: "relPathOf rel \<notin> set (Files ?p)" by (simp add: ScanProject_Files)
  from f out have "NodesMap ?w (relPathOf rel) = None"
    by (simp add: framed_def emptyProject_def)
  then have key: "NodesMap ?p (relPathOf rel) = None" by (rule ScanProject_NodesMap_None)
  have "ID node \<noteq> relPathOf rel \<and> Path node \<noteq> relPathOf rel"
    if "NodesMap ?p k = Some node" for k node
  proof -
    from that ScanProject_keysAreIDs [of extractImports rootDir root relOrder nodeOrder dirOrder]
    have "ID node = k" "Path node = k" by (auto simp: keysAreIDs_def)
    with that key show ?thesis by auto
  qed
  with files key show ?thesis by blast
qed

lemma walkFn_present:
  "present k named project \<Longrightarrow>
     present k named (snd (walkFn extractImports rootDir path rel entry project))"
  by (cases entry)
     (auto simp: walkFn_def registerNode_def Let_def present_def split: sum.splits)

lemma walk_present:
  "present k named project \<Longrightarrow>
     present k named (snd (walkEntries extractImports rootDir path rel entries project))"
  by (rule walk_invariant(2) [where I = "present k named"]) (auto intro: walkFn_present)

lemma walk_SkipDir_isDirectory:
  "walk extractImports rootDir path rel entry project = (SkipDir, project') \<Longrightarrow> isDirectory entry"
  by (cases entry) (auto simp: walkFn_def Let_def split: if_splits sum.splits)

lemma walkFn_File_registers:
  assumes "walkFn extractImports rootDir path rel (File name content) project = (result, project')"
    and "\<forall>err. result \<noteq> Failed err" and "isReactFile name"
  shows "present (relPathOf rel) (componentName path (relPathOf rel) rootDir \<noteq> []) project'"
proof (cases "parseFile extractImports content path (relPathOf rel) rootDir")
  case (Inl err)
  with assms show ?thesis by (auto simp: walkFn_def Let_def)
next
  case (Inr node)
  with assms have "project' = registerNode node (project\<lparr>Files := Files project @ [relPathOf rel]\<rparr>)"
    by (simp add: walkFn_def Let_def)
  with parseFile_ID [OF Inr] parseFile_Name [OF Inr] show ?thesis
    by (simp add: present_def registerNode_def)
qed

lemma walk_registers:
  "walk extractImports rootDir path rel entry project = (result, project') \<Longrightarrow>
   \<forall>err. result \<noteq> Failed err \<Longrightarrow>
   visibleAt entry s (File name content) \<Longrightarrow> isReactFile name \<Longrightarrow>
     present (relPathOf (rel @ s))
       (componentName (walkPath path s) (relPathOf (rel @ s)) rootDir \<noteq> []) project'"
  "walkEntries extractImports rootDir path rel entries project = (result, project') \<Longrightarrow>
   \<forall>err. result \<noteq> Failed err \<Longrightarrow> child \<in> set entries \<Longrightarrow>
   visibleAt child s (File name content) \<Longrightarrow> isReactFile name \<Longrightarrow>
     present (relPathOf (rel @ entryName child # s))
       (componentName (walkPath (filepath_Join [path, entryName child]) s)
          (relPathOf (rel @ entryName child # s)) rootDir \<noteq> []) project'"
proof (induction extractImports rootDir path rel entry project
         and extractImports rootDir path rel entries project
       arbitrary: result project' s and result project' s child
       rule: walk_walkEntries.induct)
  case (1 extractImports rootDir path rel dname entries project)
  from "1.prems"(3) obtain n s' child where s: "s = n # s'" and ns: "\<not> skipDirName dname"
    and c: "child \<in> set entries" "entryName child = n" "visibleAt child s' (File name content)"
    by (cases s) auto
  from ns have fn: "walkFn extractImports rootDir path rel (Directory dname entries) project
                      = (Continue, project)"
    by (simp add: walkFn_def)
  with "1.prems"(1) have w: "walkEntries extractImports rootDir path rel entries project
                               = (result, project')"
    by simp
  from "1.IH" [OF fn [symmetric] refl w "1.prems"(2) c(1) c(3) "1.prems"(4)] s c(2)
  show ?case by simp
next
  case (2 extractImports rootDir path rel fname fcontent project)
  from "2.prems"(3) have s: "s = []" and f: "fname = name" "fcontent = content"
    by (cases s; auto)+
  from "2.prems"(1) f
  have "walkFn extractImports rootDir path rel (File name content) project = (result, project')"
    by simp
  from walkFn_File_registers [OF this "2.prems"(2,4)] s show ?case by simp
next
  case (3 extractImports rootDir path rel dname project)
  from "3.prems"(3) show ?case by (cases s) auto
next
  case (4 extractImports rootDir path rel bname project)
  from "4.prems"(3) show ?case by (cases s) auto
next
  case (5 extractImports rootDir path rel project)
  then show ?case by simp
next
  case (6 extractImports rootDir path rel entry entries project)
  let ?w = "walk extractImports rootDir (filepath_Join [path, entryName entry])
             (rel @ [entryName entry]) entry project"
  let ?goal = "\<lambda>q. present (relPathOf (rel @ entryName child # s))
       (componentName (walkPath (filepath_Join [path, entryName child]) s)
          (relPathOf (rel @ entryName child # s)) rootDir \<noteq> []) q"
  obtain r1 p1 where w1: "?w = (r1, p1)" by (cases ?w)
  have nf: "\<forall>err. r1 \<noteq> Failed err"
    using "6.prems"(1,2) w1 by (cases r1) auto
  have rest: "walkEntries extractImports rootDir path rel entries p1 = (result, project')"
    if "r1 = Continue \<or> isDirectory entry"
    using "6.prems"(1) w1 nf that by (cases r1) auto
  have dir: "r1 = Continue \<or> isDirectory entry"
    using w1 nf walk_SkipDir_isDirectory [of extractImports rootDir _ _ entry project p1]
    by (cases r1) auto
  note rest' = rest [OF dir]
  show ?case
  proof (cases "child = entry")
    case True
    from "6.IH"(1) [OF w1 nf] "6.prems"(4,5) True
    have "?goal p1" by simp
    then have "?goal (snd (walkEntries extractImports rootDir path rel entries p1))"
      by (rule walk_present)
    with rest' show ?thesis by simp
  next
    case False
    with "6.prems"(3) have c: "child \<in> set entries" by simp
    show ?thesis
    proof (cases r1)
      case Continue
      from "6.IH"(2) [OF w1 [symmetric] Continue rest' "6.prems"(2) c "6.prems"(4,5)]
      show ?thesis .
    next
      case SkipDir
      with dir have d: "isDirectory entry" by simp
      from "6.IH"(3) [OF w1 [symmetric] SkipDir d rest' "6.prems"(2) c "6.prems"(4,5)]
      show ?thesis .
    next
      case (Failed err)
      with nf show ?thesis by simp
    qed
  qed
qed

lemma ScanProject_dom:
  "dom (NodesMap (fst (ScanProject extractImports rootDir root relOrder nodeOrder dirOrder))) =
     dom (NodesMap (snd (walk extractImports rootDir rootDir [] root (emptyProject rootDir))))"
  by (auto simp: ScanProject_NodesMap Let_def relationshipsLoop_lookup dom_def
           split: option.splits)

lemma parseFile_readable:
  "parseFile extractImports content path relPath rootDir = Inr node \<Longrightarrow>
     \<exists>fileContent. content = Some fileContent"
  by (cases content) (simp_all add: parseFile_def)

lemma walkFn_File_value:
  assumes "walkFn extractImports rootDir path rel (File name content) project = (result, project')"
    and "\<forall>err. result \<noteq> Failed err" and "isReactFile name"
  shows "\<exists>node. parseFile extractImports content path (relPathOf rel) rootDir = Inr node
           \<and> (Name node \<noteq> [] \<longrightarrow> NodesMap project' (relPathOf rel) = Some node)"
proof (cases "parseFile extractImports content path (relPathOf rel) rootDir")
  case (Inl err)
  with assms show ?thesis by (auto simp: walkFn_def Let_def)
next
  case (Inr node)
  with assms have "project' = registerNode node (project\<lparr>Files := Files project @ [relPathOf rel]\<rparr>)"
    by (simp add: walkFn_def Let_def)
  with parseFile_ID [OF Inr] Inr show ?thesis
    by (simp add: registerNode_def)
qed

lemma sibling_paths_apart:
  assumes "\<forall>x \<in> set rel. plainName x" and "plainName a" and "plainName b" and "a \<noteq> b"
    and "plainTree entryA" and "plainTree entryB"
    and "visibleAt entryA s (File name content)"
  shows "relPathOf (rel @ a # s) \<notin> visiblePaths (rel @ [b]) entryB"
proof
  assume "relPathOf (rel @ a # s) \<in> visiblePaths (rel @ [b]) entryB"
  then obtain s' n c where eq: "relPathOf (rel @ a # s) = relPathOf ((rel @ [b]) @ s')"
    and v: "visibleAt entryB s' (File n c)"
    by (auto simp: visiblePaths_def)
  from assms(5,7) have "\<forall>x \<in> set s. plainName x"
    using locatedAt_plain visibleAt_locatedAt by blast
  with assms(1,2) have p1: "\<forall>x \<in> set (rel @ a # s). plainName x" by auto
  from assms(6) v have "\<forall>x \<in> set s'. plainName x"
    using locatedAt_plain visibleAt_locatedAt by blast
  with assms(1,3) have p2: "\<forall>x \<in> set ((rel @ [b]) @ s'). plainName x" by auto
  from relPathOf_inj [OF p1 p2 eq] have "a # s = b # s'" by simp
  with assms(4) show False by simp
qed

lemma walk_value:
  "walk extractImports rootDir path rel entry project = (result, project') \<Longrightarrow>
   \<forall>err. result \<noteq> Failed err \<Longrightarrow>
   visibleAt entry s (File name content) \<Longrightarrow> isReactFile name \<Longrightarrow>
   plainTree entry \<Longrightarrow> distinctNames entry \<Longrightarrow> \<forall>x \<in> set rel. plainName x \<Longrightarrow>
     \<exists>node. parseFile extractImports content (walkPath path s) (relPathOf (rel @ s)) rootDir
               = Inr node
           \<and> (Name node \<noteq> [] \<longrightarrow> NodesMap project' (relPathOf (rel @ s)) = Some node)"
  "walkEntries extractImports rootDir path rel entries project = (result, project') \<Longrightarrow>
   \<forall>err. result \<noteq> Failed err \<Longrightarrow> child \<in> set entries \<Longrightarrow>
   visibleAt child s (File name content) \<Longrightarrow> isReactFile name \<Longrightarrow>
   \<forall>e \<in> set entries. plainName (entryName e) \<and> plainTree e \<and> distinctNames e \<Longrightarrow>
   distinct (map entryName entries) \<Longrightarrow> \<forall>x \<in> set rel. plainName x \<Longrightarrow>
     \<exists>node. parseFile extractImports content
               (walkPath (filepath_Join [path, entryName child]) s)
               (relPathOf (rel @ entryName child # s)) rootDir = Inr node
           \<and> (Name node \<noteq> [] \<longrightarrow>
                NodesMap project' (relPathOf (rel @ entryName child # s)) = Some node)"
proof (induction extractImports rootDir path rel entry project
         and extractImports rootDir path rel entries project
       arbitrary: result project' s and result project' s child
       rule: walk_walkEntries.induct)
  case (1 extractImports rootDir path rel dname entries project)
  from "1.prems"(3) obtain n s' child where s: "s = n # s'" and ns: "\<not> skipDirName dname"
    and c: "child \<in> set entries" "entryName child = n" "visibleAt child s' (File name content)"
    by (cases s) auto
  from ns have fn: "walkFn extractImports rootDir path rel (Directory dname entries) project
                      = (Continue, project)"
    by (simp add: walkFn_def)
  with "1.prems"(1) have w: "walkEntries extractImports rootDir path rel entries project
                               = (result, project')"
    by simp
  from "1.prems"(5,6) have wf: "\<forall>e \<in> set entries. plainName (entryName e) \<and> plainTree e \<and> distinctNames e"
    and d: "distinct (map entryName entries)"
    by auto
  from "1.IH" [OF fn [symmetric] refl w "1.prems"(2) c(1) c(3) "1.prems"(4) wf d "1.prems"(7)]
    s c(2)
  show ?case by simp
next
  case (2 extractImports rootDir path rel fname fcontent project)
  from "2.prems"(3) have s: "s = []" and f: "fname = name" "fcontent = content"
    by (cases s; auto)+
  from "2.prems"(1) f
  have "walkFn extractImports rootDir path rel (File name content) project = (result, project')"
    by simp
  from walkFn_File_value [OF this "2.prems"(2,4)] s show ?case by simp
next
  case (3 extractImports rootDir path rel dname project)
  from "3.prems"(3) show ?case by (cases s) auto
next
  case (4 extractImports rootDir path rel bname project)
  from "4.prems"(3) show ?case by (cases s) auto
next
  case (5 extractImports rootDir path rel project)
  then show ?case by simp
next
  case (6 extractImports rootDir path rel entry entries project)
  let ?w = "walk extractImports rootDir (filepath_Join [path, entryName entry])
             (rel @ [entryName entry]) entry project"
  let ?k = "relPathOf (rel @ entryName child # s)"
  obtain r1 p1 where w1: "?w = (r1, p1)" by (cases ?w)
  have nf: "\<forall>err. r1 \<noteq> Failed err"
    using "6.prems"(1,2) w1 by (cases r1) auto
  have dir: "r1 = Continue \<or> isDirectory entry"
    using w1 nf walk_SkipDir_isDirectory [of extractImports rootDir _ _ entry project p1]
    by (cases r1) auto
  have rest: "walkEntries extractImports rootDir path rel entries p1 = (result, project')"
    using "6.prems"(1) w1 nf dir by (cases r1) auto
  from "6.prems"(6) have wfe: "plainName (entryName entry)" "plainTree entry" "distinctNames entry"
    and wf: "\<forall>e \<in> set entries. plainName (entryName e) \<and> plainTree e \<and> distinctNames e"
    by auto
  from "6.prems"(7) have d: "distinct (map entryName entries)"
    and fresh: "entryName entry \<notin> entryName ` set entries"
    by auto
  from "6.prems"(8) wfe(1) have rel': "\<forall>x \<in> set (rel @ [entryName entry]). plainName x"
    by auto
  show ?case
  proof (cases "child = entry")
    case True
    from "6.IH"(1) [OF w1 nf _ "6.prems"(5) wfe(2,3) rel', of s] "6.prems"(4) True
    obtain node where n: "parseFile extractImports content
               (walkPath (filepath_Join [path, entryName child]) s) ?k rootDir = Inr node"
      and v: "Name node \<noteq> [] \<longrightarrow> NodesMap p1 ?k = Some node"
      by auto
    have "?k \<notin> (\<Union>e \<in> set entries. visiblePaths (rel @ [entryName e]) e)"
    proof
      assume "?k \<in> (\<Union>e \<in> set entries. visiblePaths (rel @ [entryName e]) e)"
      then obtain e where e: "e \<in> set entries" "?k \<in> visiblePaths (rel @ [entryName e]) e"
        by blast
      with fresh have ne: "entryName entry \<noteq> entryName e" by auto
      from e(1) wf have "plainName (entryName e)" "plainTree e" by auto
      from sibling_paths_apart [OF "6.prems"(8) wfe(1) this(1) ne wfe(2) this(2)]
        "6.prems"(4) True e(2)
      show False by auto
    qed
    moreover from walk_framed(2) [of rel entries p1 extractImports rootDir path] rest
    have "framed (\<Union>e \<in> set entries. visiblePaths (rel @ [entryName e]) e) p1 project'"
      by simp
    ultimately have "NodesMap project' ?k = NodesMap p1 ?k"
      by (simp add: framed_def)
    with n v show ?thesis by auto
  next
    case False
    with "6.prems"(3) have c: "child \<in> set entries" by simp
    show ?thesis
    proof (cases r1)
      case Continue
      from "6.IH"(2) [OF w1 [symmetric] Continue rest "6.prems"(2) c "6.prems"(4,5) wf d
             "6.prems"(8)]
      show ?thesis .
    next
      case SkipDir
      with dir have dd: "isDirectory entry" by simp
      from "6.IH"(3) [OF w1 [symmetric] SkipDir dd rest "6.prems"(2) c "6.prems"(4,5) wf d
             "6.prems"(8)]
      show ?thesis .
    next
      case (Failed err)
      with nf show ?thesis by simp
    qed
  qed
qed

lemma parseFile_Imports:
  "parseFile extractImports (Some fileContent) path relPath rootDir = Inr node \<Longrightarrow>
     Imports node = extractImports fileContent (filepath_Dir relPath)"
  by (auto simp: parseFile_def Let_def)

text \<open>
  C10. After a scan that returns no error, a file whose name begins with a dot and
  has one of the four extensions, and that lies below no pruned directory, has its
  relative path in the file list; and when the display name \<^verbatim>\<open>parseFile\<close> derives
  for it is not empty, a node with that path as identifier is registered under it,
  classified with one of the three roles. In a tree as a file system has it (plain
  names, no two entries of a directory with the same name) that node is the file's
  own: its name, role and imports are those \<^verbatim>\<open>parseFile\<close> computes from the
  file's content.
\<close>

theorem ScanProject_hidden_file:
  assumes "ScanProject extractImports rootDir root relOrder nodeOrder dirOrder = (project, None)"
    and "visibleAt root rel (File name content)"
    and "strings_HasPrefix name ''.''" and "isReactFile name"
  shows "relPathOf rel \<in> set (Files project)
       \<and> (componentName (walkPath rootDir rel) (relPathOf rel) rootDir \<noteq> [] \<longrightarrow>
            (\<exists>node. NodesMap project (relPathOf rel) = Some node
                  \<and> ID node = relPathOf rel
                  \<and> (Type node = ''component'' \<or> Type node = ''state'' \<or> Type node = ''util'')))
       \<and> (plainTree root \<and> distinctNames root
            \<and> componentName (walkPath rootDir rel) (relPathOf rel) rootDir \<noteq> [] \<longrightarrow>
            (\<exists>fileContent node.
                content = Some fileContent
              \<and> NodesMap project (relPathOf rel) = Some node
              \<and> Name node = componentName (walkPath rootDir rel) (relPathOf rel) rootDir
              \<and> Type node = fileType fileContent (filepath_Base (walkPath rootDir rel))
                               (relPathOf rel)
              \<and> Imports node = extractImports fileContent (filepath_Dir (relPathOf rel))))"
proof -
  let ?w = "walk extractImports rootDir rootDir [] root (emptyProject rootDir)"
  let ?k = "relPathOf rel"
  let ?path = "walkPath rootDir rel"
  obtain r p1 where w: "?w = (r, p1)" by (cases ?w)
  from assms(1) w have nf: "\<forall>err. r \<noteq> Failed err"
    by (cases r) (auto simp: ScanProject_def filepath_Walk_def)
  from walk_registers(1) [OF w nf assms(2,4)]
  have p: "present ?k (componentName ?path ?k rootDir \<noteq> []) p1"
    by simp
  have proj: "project = fst (ScanProject extractImports rootDir root relOrder nodeOrder dirOrder)"
    and ok: "snd (ScanProject extractImports rootDir root relOrder nodeOrder dirOrder) = None"
    using assms(1) by simp_all
  from p w have files: "?k \<in> set (Files project)"
    unfolding proj by (simp add: ScanProject_Files present_def)
  have basic: "\<exists>node. NodesMap project ?k = Some node \<and> ID node = ?k
                  \<and> (Type node = ''component'' \<or> Type node = ''state'' \<or> Type node = ''util'')"
    if "componentName ?path ?k rootDir \<noteq> []"
  proof -
    from p that w have "?k \<in> dom (NodesMap (snd ?w))"
      by (simp add: present_def)
    then have "?k \<in> dom (NodesMap project)"
      unfolding proj by (simp only: ScanProject_dom)
    then obtain node where n: "NodesMap project ?k = Some node" by blast
    from n ScanProject_roles [of extractImports rootDir root relOrder nodeOrder dirOrder]
    have "isRole (Type node)" unfolding proj rolesRegistered_def by blast
    moreover from n ScanProject_keysAreIDs [of extractImports rootDir root relOrder nodeOrder dirOrder]
    have "ID node = ?k" unfolding proj keysAreIDs_def by blast
    ultimately show ?thesis using n by (auto simp: isRole_def)
  qed
  have own: "\<exists>fileContent node.
                content = Some fileContent
              \<and> NodesMap project ?k = Some node
              \<and> Name node = componentName ?path ?k rootDir
              \<and> Type node = fileType fileContent (filepath_Base ?path) ?k
              \<and> Imports node = extractImports fileContent (filepath_Dir ?k)"
    if wf: "plainTree root" "distinctNames root" and named: "componentName ?path ?k rootDir \<noteq> []"
  proof -
    from walk_value(1) [OF w nf assms(2,4) wf]
    obtain node0 where n0: "parseFile extractImports content ?path ?k rootDir = Inr node0"
      and v: "Name node0 \<noteq> [] \<longrightarrow> NodesMap p1 ?k = Some node0"
      by auto
    from parseFile_readable [OF n0] obtain fileContent where c: "content = Some fileContent"
      by blast
    from n0 named v have m: "NodesMap p1 ?k = Some node0" by (simp add: parseFile_Name)
    let ?node = "withImportedBy
                   (ImportedBy node0 @ concat (map (reverseEntries (NodesMap p1) ?k) relOrder))
                   node0"
    from m w ok have "NodesMap project ?k = Some ?node"
      unfolding proj by (simp add: ScanProject_NodesMap Let_def relationshipsLoop_lookup)
    moreover from n0 have "Name ?node = componentName ?path ?k rootDir"
      by (simp add: parseFile_Name)
    moreover from n0 c have "Type ?node = fileType fileContent (filepath_Base ?path) ?k"
      by (simp add: parseFile_Type)
    moreover from n0 c have "Imports ?node = extractImports fileContent (filepath_Dir ?k)"
      by (simp add: parseFile_Imports)
    ultimately show ?thesis using c by blast
  qed
  from files basic own show ?thesis by blast
qed

lemma exampleScan_ok: "snd exampleScan = None"
  by code_simp

lemma exampleScan_Files:
  "Files (fst exampleScan) = [''.hidden.ts'', ''App.jsx'', ''src/.ts'', ''src/index.ts'', ''src/store.js'']"
  by code_simp

lemma exampleScan_Stats:
  "Stats (fst exampleScan) =
     \<lparr>TotalComponents = 4, MultiCompFiles = 0, ComponentFiles = 1, StateFiles = 1, UtilFiles = 2\<rparr>"
  by code_simp

lemma exampleScan_hidden:
  "NodesMap (fst exampleScan) ''.hidden.ts''
     = Some (ComponentNode ''.hidden.ts'' ''.hidden'' ''.hidden.ts'' ''util'' False [] [] [])"
  by code_simp

text \<open>
  Witness for C10: \<^verbatim>\<open>.hidden.ts\<close> in the root of the example tree.
\<close>

theorem ScanProject_hidden_file_witness:
  "snd exampleScan = None
   \<and> visibleAt exampleTree [''.hidden.ts''] (File ''.hidden.ts'' (Some ''export const x = 1''))
   \<and> strings_HasPrefix ''.hidden.ts'' ''.''
   \<and> isReactFile ''.hidden.ts''
   \<and> plainTree exampleTree \<and> distinctNames exampleTree
   \<and> componentName (walkPath ''/home/u/proj'' [''.hidden.ts'']) (relPathOf [''.hidden.ts''])
        ''/home/u/proj'' = ''.hidden''
   \<and> ''.hidden.ts'' \<in> set (Files (fst exampleScan))
   \<and> (\<exists>node. NodesMap (fst exampleScan) ''.hidden.ts'' = Some node
           \<and> ID node = ''.hidden.ts''
           \<and> (Type node = ''component'' \<or> Type node = ''state'' \<or> Type node = ''util''))
   \<and> (\<exists>node. NodesMap (fst exampleScan) ''.hidden.ts'' = Some node
           \<and> Name node = ''.hidden'' \<and> Type node = ''util'' \<and> Imports node = [])"
proof -
  have s: "ScanProject (\<lambda>content dir. []) ''/home/u/proj'' exampleTree
             exampleOrder exampleOrder [''.'', ''src''] = (fst exampleScan, None)"
    using exampleScan_ok by (simp add: exampleScan_def prod_eq_iff)
  have v: "visibleAt exampleTree [''.hidden.ts''] (File ''.hidden.ts'' (Some ''export const x = 1''))"
    by code_simp
  have h: "strings_HasPrefix ''.hidden.ts'' ''.''" by code_simp
  have e: "isReactFile ''.hidden.ts''" by code_simp
  have t: "plainTree exampleTree" by code_simp
  have d: "distinctNames exampleTree" by code_simp
  have r: "relPathOf [''.hidden.ts''] = ''.hidden.ts''" by code_simp
  have c: "componentName (walkPath ''/home/u/proj'' [''.hidden.ts'']) (relPathOf [''.hidden.ts''])
        ''/home/u/proj'' = ''.hidden''"
    by code_simp
  have f: "fileType ''export const x = 1''
             (filepath_Base (walkPath ''/home/u/proj'' [''.hidden.ts'']))
             (relPathOf [''.hidden.ts'']) = ''util''"
    by code_simp
  from ScanProject_hidden_file [OF s v h e] c r t d f exampleScan_ok v h e
  show ?thesis by simp
qed

text \<open>
  Witness for C8: \<^verbatim>\<open>node_modules/react/index.js\<close> and \<^verbatim>\<open>.git/hook.js\<close> of the
  example tree.
\<close>

theorem ScanProject_prunes_witness:
  "plainTree exampleTree
   \<and> prunedAt exampleTree [''node_modules'', ''react'', ''index.js'']
         (File ''index.js'' (Some ''module.exports = 2''))
   \<and> ''node_modules/react/index.js'' \<notin> set (Files (fst exampleScan))
   \<and> NodesMap (fst exampleScan) ''node_modules/react/index.js'' = None
   \<and> prunedAt exampleTree [''.git'', ''hook.js''] (File ''hook.js'' (Some ''module.exports = 1''))
   \<and> ''.git/hook.js'' \<notin> set (Files (fst exampleScan))
   \<and> NodesMap (fst exampleScan) ''.git/hook.js'' = None
   \<and> (\<exists>node. NodesMap (fst exampleScan) ''.hidden.ts'' = Some node
           \<and> ID node \<noteq> ''node_modules/react/index.js'' \<and> ID node \<noteq> ''.git/hook.js'')"
proof -
  have t: "plainTree exampleTree" by code_simp
  have p1: "prunedAt exampleTree [''node_modules'', ''react'', ''index.js'']
              (File ''index.js'' (Some ''module.exports = 2''))"
    by code_simp
  have p2: "prunedAt exampleTree [''.git'', ''hook.js''] (File ''hook.js'' (Some ''module.exports = 1''))"
    by code_simp
  have r1: "relPathOf [''node_modules'', ''react'', ''index.js''] = ''node_modules/react/index.js''"
    by code_simp
  have r2: "relPathOf [''.git'', ''hook.js''] = ''.git/hook.js''"
    by code_simp
  note a = ScanProject_prunes [OF t p1, of "\<lambda>content dir. []" "''/home/u/proj''"
             exampleOrder exampleOrder "[''.'', ''src'']", folded exampleScan_def, unfolded r1]
  note b = ScanProject_prunes [OF t p2, of "\<lambda>content dir. []" "''/home/u/proj''"
             exampleOrder exampleOrder "[''.'', ''src'']", folded exampleScan_def, unfolded r2]
  from a b exampleScan_hidden
  have "\<exists>node. NodesMap (fst exampleScan) ''.hidden.ts'' = Some node
           \<and> ID node \<noteq> ''node_modules/react/index.js'' \<and> ID node \<noteq> ''.git/hook.js''"
    by blast
  with a b t p1 p2 show ?thesis by blast
qed

text \<open>
  Witness for C9: the scan of the example tree registers four nodes, one component,
  one state file and two utilities.
\<close>

theorem ScanProject_stats_consistent_witness:
  "Stats (fst exampleScan) =
     \<lparr>TotalComponents = 4, MultiCompFiles = 0, ComponentFiles = 1, StateFiles = 1,
      UtilFiles = 2\<rparr>
   \<and> TotalComponents (Stats (fst exampleScan))
       = ComponentFiles (Stats (fst exampleScan)) + StateFiles (Stats (fst exampleScan))
         + UtilFiles (Stats (fst exampleScan))
   \<and> MultiCompFiles (Stats (fst exampleScan)) \<le> ComponentFiles (Stats (fst exampleScan))
   \<and> (\<exists>node. NodesMap (fst exampleScan) ''.hidden.ts'' = Some node
           \<and> (Type node = ''component'' \<or> Type node = ''state'' \<or> Type node = ''util''))"
proof -
  note c = ScanProject_stats_consistent [of "\<lambda>content dir. []" "''/home/u/proj''" exampleTree
             exampleOrder exampleOrder "[''.'', ''src'']", folded exampleScan_def]
  from c exampleScan_hidden
  have "\<exists>node. NodesMap (fst exampleScan) ''.hidden.ts'' = Some node
           \<and> (Type node = ''component'' \<or> Type node = ''state'' \<or> Type node = ''util'')"
    by blast
  with c exampleScan_Stats show ?thesis by blast
qed

end
